theory Spec2Isabelle
  imports Complex_Main "HOL-Library.Multiset" "HOL-Library.Sublist"
begin

section \<open>The cat guessing game: a model of \<open>src/App.tsx\<close>\<close>

text \<open>
  The program is one React component. Its \<open>useState\<close> cells and the timers it has
  started form the state; every event handler is a function from the state to the next
  one. What a handler reads from the browser (the clock, the random source, the stored
  record, the answer of the recognition service) is an argument of the function.
  Arithmetic in binary64 is not modelled: of a random draw the model takes the index
  that the source computes from it, and the scaling of a picture is left out.
  Strings are byte sequences; the texts of the source that are not ASCII are written as
  their UTF-8 bytes. Speech output and scrolling change no state cell and are left out.
\<close>

subsection \<open>Types\<close>

record item =
  item_id :: string
  item_name :: string
  item_image :: string

datatype GameState = Idle | Guessing | Success | Fail

datatype CatEmotion = Neutral | Thinking | Happy | Sad

text \<open>The messages of the errors that the source throws, and those of the runtime.\<close>

datatype error = MISSING_KEY | API_ERROR | EMPTY_RESPONSE | TypeError | SyntaxError

subsection \<open>Constants\<close>

text \<open>\<open>NAME_DEFAULT_1\<close>: name of the first built-in item ("tissue"), as UTF-8 bytes.\<close>

definition NAME_DEFAULT_1 :: string where
  "NAME_DEFAULT_1 =
     [CHR 0xE7, CHR 0xBA, CHR 0xB8, CHR 0xE5, CHR 0xB7, CHR 0xBE]"

text \<open>\<open>NAME_DEFAULT_2\<close>: name of the second built-in item ("radish"), as UTF-8 bytes.\<close>

definition NAME_DEFAULT_2 :: string where
  "NAME_DEFAULT_2 =
     [CHR 0xE8, CHR 0x90, CHR 0x9D, CHR 0xE5, CHR 0x8D, CHR 0x9C]"

text \<open>\<open>MSG_PROMPT\<close>: the idle speech bubble ("human, pick something for me to guess"), as UTF-8 bytes.\<close>

definition MSG_PROMPT :: string where
  "MSG_PROMPT =
     [CHR 0xE4, CHR 0xBA, CHR 0xBA, CHR 0xE7, CHR 0xB1, CHR 0xBB, CHR 0xEF, CHR 0xBC,
       CHR 0x8C, CHR 0xE5, CHR 0xBF, CHR 0xAB, CHR 0xE9, CHR 0x80, CHR 0x89, CHR 0xE4,
       CHR 0xB8, CHR 0x80, CHR 0xE4, CHR 0xB8, CHR 0xAA, CHR 0xE4, CHR 0xB8, CHR 0x9C,
       CHR 0xE8, CHR 0xA5, CHR 0xBF, CHR 0xE8, CHR 0xAE, CHR 0xA9, CHR 0xE6, CHR 0x88,
       CHR 0x91, CHR 0xE7, CHR 0x8C, CHR 0x9C, CHR 0xEF, CHR 0xBC, CHR 0x81]"

text \<open>\<open>MSG_THINKING\<close>: the bubble while guessing ("let me think"), as UTF-8 bytes.\<close>

definition MSG_THINKING :: string where
  "MSG_THINKING =
     [CHR 0xE5, CHR 0x96, CHR 0xB5, CHR 0xE5, CHR 0x91, CHR 0x9C] @ ''...'' @ [CHR 0xE8,
       CHR 0xAE, CHR 0xA9, CHR 0xE6, CHR 0x88, CHR 0x91, CHR 0xE6, CHR 0x83, CHR 0xB3,
       CHR 0xE6, CHR 0x83, CHR 0xB3] @ ''...''"

text \<open>\<open>MSG_SUCCESS\<close>: the bubble on a right guess, as UTF-8 bytes.\<close>

definition MSG_SUCCESS :: string where
  "MSG_SUCCESS =
     [CHR 0xE7, CHR 0x8C, CHR 0x9C, CHR 0xE5, CHR 0xAF, CHR 0xB9, CHR 0xE4, CHR 0xBA,
       CHR 0x86, CHR 0xE5, CHR 0x96, CHR 0xB5, CHR 0xEF, CHR 0xBC, CHR 0x81]"

text \<open>\<open>MSG_FAIL\<close>: the bubble on a wrong guess, as UTF-8 bytes.\<close>

definition MSG_FAIL :: string where
  "MSG_FAIL =
     [CHR 0xE6, CHR 0xB2, CHR 0xA1, CHR 0xE7, CHR 0x8C, CHR 0x9C, CHR 0xE4, CHR 0xB8,
       CHR 0xAD, CHR 0xE5, CHR 0x96, CHR 0xB5] @ ''...''"

text \<open>\<open>ERR_KEEP_ONE\<close>: the banner of a refused delete ("keep at least one thing in the warehouse"), as UTF-8 bytes.\<close>

definition ERR_KEEP_ONE :: string where
  "ERR_KEEP_ONE =
     [CHR 0xE4, CHR 0xBB, CHR 0x93, CHR 0xE5, CHR 0xBA, CHR 0x93, CHR 0xE9, CHR 0x87,
       CHR 0x8C, CHR 0xE8, CHR 0x87, CHR 0xB3, CHR 0xE5, CHR 0xB0, CHR 0x91, CHR 0xE8,
       CHR 0xA6, CHR 0x81, CHR 0xE7, CHR 0x95, CHR 0x99, CHR 0xE4, CHR 0xB8, CHR 0x80,
       CHR 0xE4, CHR 0xB8, CHR 0xAA, CHR 0xE4, CHR 0xB8, CHR 0x9C, CHR 0xE8, CHR 0xA5,
       CHR 0xBF, CHR 0xE5, CHR 0x96, CHR 0xB5, CHR 0xEF, CHR 0xBC, CHR 0x81]"

text \<open>\<open>ERR_TOO_LARGE\<close>: the banner of an oversized upload, as UTF-8 bytes.\<close>

definition ERR_TOO_LARGE :: string where
  "ERR_TOO_LARGE =
     [CHR 0xE5, CHR 0x9B, CHR 0xBE, CHR 0xE7, CHR 0x89, CHR 0x87, CHR 0xE5, CHR 0xA4,
       CHR 0xAA, CHR 0xE5, CHR 0xA4, CHR 0xA7, CHR 0xE5, CHR 0x95, CHR 0xA6, CHR 0xEF,
       CHR 0xBC, CHR 0x81, CHR 0xE8, CHR 0xAF, CHR 0xB7, CHR 0xE9, CHR 0x80, CHR 0x89,
       CHR 0xE6, CHR 0x8B, CHR 0xA9] @ '' 1MB '' @ [CHR 0xE4, CHR 0xBB, CHR 0xA5, CHR 0xE5,
       CHR 0x86, CHR 0x85, CHR 0xE7, CHR 0x9A, CHR 0x84, CHR 0xE5, CHR 0x9B, CHR 0xBE,
       CHR 0xE7, CHR 0x89, CHR 0x87, CHR 0xE5, CHR 0x96, CHR 0xB5] @ ''~''"

text \<open>\<open>ERR_AI_FAILED\<close>: the banner when recognition fails for want of a working key, as UTF-8 bytes.\<close>

definition ERR_AI_FAILED :: string where
  "ERR_AI_FAILED =
     ''AI '' @ [CHR 0xE8, CHR 0xAF, CHR 0x86, CHR 0xE5, CHR 0x88, CHR 0xAB, CHR 0xE5,
       CHR 0xA4, CHR 0xB1, CHR 0xE8, CHR 0xB4, CHR 0xA5, CHR 0xE3, CHR 0x80, CHR 0x82,
       CHR 0xE8, CHR 0xAF, CHR 0xB7, CHR 0xE7, CHR 0x82, CHR 0xB9, CHR 0xE5, CHR 0x87,
       CHR 0xBB, CHR 0xE5, CHR 0x8F, CHR 0xB3, CHR 0xE4, CHR 0xB8, CHR 0x8A, CHR 0xE8,
       CHR 0xA7, CHR 0x92, CHR 0xE8, CHR 0xAE, CHR 0xBE, CHR 0xE7, CHR 0xBD, CHR 0xAE,
       CHR 0xE5, CHR 0x9B, CHR 0xBE, CHR 0xE6, CHR 0xA0, CHR 0x87, CHR 0xE6, CHR 0xA3,
       CHR 0x80, CHR 0xE6, CHR 0x9F, CHR 0xA5] @ '' Gemini API Key '' @ [CHR 0xE5, CHR 0x96,
       CHR 0xB5, CHR 0xEF, CHR 0xBC, CHR 0x81]"

text \<open>\<open>ERR_UNKNOWN\<close>: the banner of any other recognition failure, as UTF-8 bytes.\<close>

definition ERR_UNKNOWN :: string where
  "ERR_UNKNOWN =
     [CHR 0xE5, CHR 0x8F, CHR 0x91, CHR 0xE7, CHR 0x94, CHR 0x9F, CHR 0xE4, CHR 0xBA,
       CHR 0x86, CHR 0xE6, CHR 0x9C, CHR 0xAA, CHR 0xE7, CHR 0x9F, CHR 0xA5, CHR 0xE9,
       CHR 0x94, CHR 0x99, CHR 0xE8, CHR 0xAF, CHR 0xAF, CHR 0xE5, CHR 0x96,
       CHR 0xB5] @ ''...''"

text \<open>\<open>NAME_UNKNOWN\<close>: the placeholder name ("unknown item"), as UTF-8 bytes.\<close>

definition NAME_UNKNOWN :: string where
  "NAME_UNKNOWN =
     [CHR 0xE6, CHR 0x9C, CHR 0xAA, CHR 0xE7, CHR 0x9F, CHR 0xA5, CHR 0xE7, CHR 0x89,
       CHR 0xA9, CHR 0xE5, CHR 0x93, CHR 0x81]"

text \<open>\<open>PROMPT_TEXT\<close>: the instruction sent with the picture, as UTF-8 bytes.\<close>

definition PROMPT_TEXT :: string where
  "PROMPT_TEXT =
     [CHR 0xE8, CHR 0xAF, CHR 0xB7, CHR 0xE8, CHR 0xAF, CHR 0x86, CHR 0xE5, CHR 0x88,
       CHR 0xAB, CHR 0xE8, CHR 0xBF, CHR 0x99, CHR 0xE5, CHR 0xBC, CHR 0xA0, CHR 0xE5,
       CHR 0x9B, CHR 0xBE, CHR 0xE7, CHR 0x89, CHR 0x87, CHR 0xE4, CHR 0xB8, CHR 0xAD,
       CHR 0xE7, CHR 0x9A, CHR 0x84, CHR 0xE7, CHR 0x89, CHR 0xA9, CHR 0xE5, CHR 0x93,
       CHR 0x81, CHR 0xE5, CHR 0x90, CHR 0x8D, CHR 0xE7, CHR 0xA7, CHR 0xB0, CHR 0xEF,
       CHR 0xBC, CHR 0x8C, CHR 0xE5, CHR 0x8F, CHR 0xAA, CHR 0xE8, CHR 0xBF, CHR 0x94,
       CHR 0xE5, CHR 0x9B, CHR 0x9E, CHR 0xE5, CHR 0x90, CHR 0x8D, CHR 0xE7, CHR 0xA7,
       CHR 0xB0, CHR 0xEF, CHR 0xBC, CHR 0x8C, CHR 0xE4, CHR 0xB8, CHR 0x8D, CHR 0xE8,
       CHR 0xA6, CHR 0x81, CHR 0xE8, CHR 0xB6, CHR 0x85, CHR 0xE8, CHR 0xBF,
       CHR 0x87] @ ''4'' @ [CHR 0xE4, CHR 0xB8, CHR 0xAA, CHR 0xE5, CHR 0xAD, CHR 0x97,
       CHR 0xE3, CHR 0x80, CHR 0x82]"

definition IMAGE_DEFAULT_1 :: string where
  \<open>IMAGE_DEFAULT_1 =
     ''data:image/svg+xml;utf8,<svg xmlns="http://www.w3.org/2000/svg" viewBox="0 0 100 100"><rect x="20" y="40" width="60" height="40" fill="%23eee" stroke="%23ccc" stroke-width="2"/><path d="M30 40 Q50 10 70 40" fill="%23fff" stroke="%23ddd"/></svg>''\<close>

definition IMAGE_DEFAULT_2 :: string where
  \<open>IMAGE_DEFAULT_2 =
     ''data:image/svg+xml;utf8,<svg xmlns="http://www.w3.org/2000/svg" viewBox="0 0 100 100"><path d="M50 90 Q20 40 50 40 Q80 40 50 90" fill="orange"/><path d="M50 40 L40 10 M50 40 L50 5 M50 40 L60 10" stroke="green" stroke-width="3"/></svg>''\<close>

definition DEFAULT_ITEMS :: "item list" where
  "DEFAULT_ITEMS =
     [\<lparr>item_id = ''default_1'', item_name = NAME_DEFAULT_1, item_image = IMAGE_DEFAULT_1\<rparr>,
      \<lparr>item_id = ''default_2'', item_name = NAME_DEFAULT_2, item_image = IMAGE_DEFAULT_2\<rparr>]"

definition MAX_UPLOAD_SIZE :: nat where
  "MAX_UPLOAD_SIZE = 1024 * 1024"

subsection \<open>The state of the component\<close>

text \<open>
  An interval timer runs the callback built by \<open>startCatGuessing\<close>. The callback keeps
  what it closed over: the \<open>items\<close> of the render that started it, the target, and its
  own counter \<open>ticks\<close>.
\<close>

record closure =
  cl_items :: "item list"
  cl_target :: item
  cl_ticks :: nat

text \<open>The two callbacks the source hands to \<open>setTimeout\<close> that write state.\<close>

datatype timeout_action = ClearErrorMsg | ResetToIdle

record app =
  items :: "item list"
  geminiKey :: string
  score :: nat
  gameState :: GameState
  catEmotion :: CatEmotion
  targetItem :: "item option"
  catChoice :: "item option"
  catMessage :: string
  isAiAnalyzing :: bool
  isAiTalking :: bool
  errorMsg :: string
  isAddModalOpen :: bool
  isSettingsOpen :: bool
  newItemName :: string
  newItemImage :: "string option"
  draggedItemIndex :: "nat option"
  intervals :: "(nat \<times> closure) list"
  intervalRef :: "nat option"
  nextTimerId :: nat
  timeouts :: "(nat \<times> timeout_action) list"

text \<open>
  \<open>intervals\<close> holds the running interval timers by id, \<open>intervalRef\<close> is
  \<open>intervalRef.current\<close>, \<open>nextTimerId\<close> the id the next timer gets (browsers number
  timers from 1), and \<open>timeouts\<close> the pending one-shot timers with their delay in
  milliseconds. No timeout is ever cancelled in the source.
\<close>

subsection \<open>Loading\<close>

text \<open>
  The initialiser of \<open>items\<close>. \<open>saved\<close> is what \<open>localStorage.getItem\<close> returns
  (\<open>None\<close> for \<open>null\<close>), \<open>parse\<close> stands for \<open>JSON.parse\<close>, with \<open>None\<close> when it
  throws. The empty string is falsy, so it is never parsed. The declared type
  \<open>Item[]\<close> is taken at its word: a parsed value is an item list.
\<close>

definition loadItems :: "(string \<Rightarrow> item list option) \<Rightarrow> string option \<Rightarrow> item list" where
  "loadItems parse saved =
     (case saved of
        None \<Rightarrow> DEFAULT_ITEMS
      | Some str \<Rightarrow>
          if str = [] then DEFAULT_ITEMS
          else (case parse str of None \<Rightarrow> DEFAULT_ITEMS | Some its \<Rightarrow> its))"

definition loadKey :: "string option \<Rightarrow> string" where
  "loadKey saved = (case saved of None \<Rightarrow> [] | Some k \<Rightarrow> k)"

definition init :: "(string \<Rightarrow> item list option) \<Rightarrow> string option \<Rightarrow> string option \<Rightarrow> app" where
  "init parse savedItems savedKey =
     \<lparr>items = loadItems parse savedItems,
      geminiKey = loadKey savedKey,
      score = 0,
      gameState = Idle,
      catEmotion = Neutral,
      targetItem = None,
      catChoice = None,
      catMessage = MSG_PROMPT,
      isAiAnalyzing = False,
      isAiTalking = False,
      errorMsg = [],
      isAddModalOpen = False,
      isSettingsOpen = False,
      newItemName = [],
      newItemImage = None,
      draggedItemIndex = None,
      intervals = [],
      intervalRef = None,
      nextTimerId = 1,
      timeouts = []\<rparr>"

subsection \<open>Reordering by drag\<close>

definition handleDragStart :: "nat \<Rightarrow> app \<Rightarrow> app" where
  "handleDragStart index s =
     (if gameState s \<noteq> Idle then s else s\<lparr>draggedItemIndex := Some index\<rparr>)"

text \<open>
  \<open>xs.splice(start, 1)\<close> for a start that is not negative: the removed element, if there
  is one, and the rest. \<open>xs.splice(start, 0, x)\<close> inserts at \<open>start\<close>, or at the end
  when \<open>start\<close> is beyond it.
\<close>

definition splice_remove :: "nat \<Rightarrow> 'a list \<Rightarrow> 'a option \<times> 'a list" where
  "splice_remove start xs =
     (if start < length xs then (Some (xs ! start), take start xs @ drop (Suc start) xs)
      else (None, xs))"

definition splice_insert :: "nat \<Rightarrow> 'a \<Rightarrow> 'a list \<Rightarrow> 'a list" where
  "splice_insert start x xs = take start xs @ x # drop start xs"

text \<open>
  When the remembered index is beyond the list, the source inserts \<open>undefined\<close> into
  \<open>items\<close>, and the next render fails on \<open>item.id\<close>: the model returns the error.
\<close>

definition handleDragOver :: "nat \<Rightarrow> app \<Rightarrow> error + app" where
  "handleDragOver index s =
     (case draggedItemIndex s of
        None \<Rightarrow> Inr s
      | Some d \<Rightarrow>
          if d = index then Inr s
          else (case splice_remove d (items s) of
                  (None, _) \<Rightarrow> Inl TypeError
                | (Some draggedItem, newItems) \<Rightarrow>
                    Inr (s\<lparr>items := splice_insert index draggedItem newItems,
                           draggedItemIndex := Some index\<rparr>)))"

definition handleDragEnd :: "app \<Rightarrow> app" where
  "handleDragEnd s = s\<lparr>draggedItemIndex := None\<rparr>"

subsection \<open>Deleting and adding\<close>

definition handleDeleteItem :: "string \<Rightarrow> app \<Rightarrow> app" where
  "handleDeleteItem itemId s =
     (if gameState s \<noteq> Idle then s
      else if length (items s) \<le> 1 then
        s\<lparr>errorMsg := ERR_KEEP_ONE, timeouts := timeouts s @ [(3000, ClearErrorMsg)]\<rparr>
      else s\<lparr>items := filter (\<lambda>it. item_id it \<noteq> itemId) (items s)\<rparr>)"

text \<open>\<open>Date.now().toString()\<close>: the decimal digits of the clock reading.\<close>

definition digit :: "nat \<Rightarrow> char" where
  "digit d = ''0123456789'' ! d"

function toString :: "nat \<Rightarrow> string" where
  "toString n = (if n < 10 then [digit n] else toString (n div 10) @ [digit (n mod 10)])"
  by pat_completeness auto
termination
  by (relation "measure (\<lambda>n. n)") auto

declare toString.simps [simp del]

text \<open>\<open>now\<close> is the value of \<open>Date.now()\<close>. A name or an image that is empty is falsy.\<close>

definition saveNewItem :: "nat \<Rightarrow> app \<Rightarrow> app" where
  "saveNewItem now s =
     (case newItemImage s of
        None \<Rightarrow> s
      | Some img \<Rightarrow>
          if newItemName s \<noteq> [] \<and> img \<noteq> [] then
            s\<lparr>items := items s @
                  [\<lparr>item_id = toString now, item_name = newItemName s, item_image = img\<rparr>],
              isAddModalOpen := False,
              newItemName := [],
              newItemImage := None\<rparr>
          else s)"

subsection \<open>Guessing\<close>

text \<open>
  \<open>xs[Math.floor(Math.random() * xs.length)]\<close>, where \<open>k\<close> is the value of the index
  expression in this call; \<open>None\<close> is \<open>undefined\<close>. Which index a given random number
  yields is a matter of the binary64 product and is not modelled.
\<close>

definition pick :: "nat \<Rightarrow> 'a list \<Rightarrow> 'a option" where
  "pick k xs = (if k < length xs then Some (xs ! k) else None)"

definition startCatGuessing :: "item \<Rightarrow> app \<Rightarrow> app" where
  "startCatGuessing userTarget s =
     s\<lparr>gameState := Guessing,
       catEmotion := Thinking,
       catChoice := None,
       catMessage := MSG_THINKING,
       isAiTalking := True,
       intervals := intervals s @
         [(nextTimerId s, \<lparr>cl_items = items s, cl_target = userTarget, cl_ticks = 0\<rparr>)],
       intervalRef := Some (nextTimerId s),
       nextTimerId := Suc (nextTimerId s)\<rparr>"

definition handleItemClick :: "item \<Rightarrow> app \<Rightarrow> app" where
  "handleItemClick it s =
     (if gameState s \<noteq> Idle then s else startCatGuessing it (s\<lparr>targetItem := Some it\<rparr>))"

text \<open>
  \<open>finalizeGuess\<close> reads the \<open>items\<close> of the render it was built in, here \<open>its\<close>, and
  \<open>k\<close> is the index it draws. With nothing to pick, \<open>finalPick.id\<close> throws after
  \<open>catChoice\<close> has been set to \<open>undefined\<close>; the error comes with the state at the throw.
\<close>

definition finalizeGuess :: "item list \<Rightarrow> item \<Rightarrow> nat \<Rightarrow> app \<Rightarrow> (error \<times> app) + app" where
  "finalizeGuess its userTarget k s =
     (case pick k its of
        None \<Rightarrow> Inl (TypeError, s\<lparr>catChoice := None\<rparr>)
      | Some finalPick \<Rightarrow>
          if item_id finalPick = item_id userTarget then
            Inr (s\<lparr>catChoice := Some finalPick,
                   gameState := Success,
                   catEmotion := Happy,
                   score := score s + 1,
                   catMessage := MSG_SUCCESS,
                   timeouts := timeouts s @ [(3000, ResetToIdle)]\<rparr>)
          else
            Inr (s\<lparr>catChoice := Some finalPick,
                   gameState := Fail,
                   catEmotion := Sad,
                   catMessage := MSG_FAIL\<rparr>))"

text \<open>\<open>clearInterval(intervalRef.current)\<close>, guarded by the truthiness of the id.\<close>

definition clearIntervalRef :: "app \<Rightarrow> app" where
  "clearIntervalRef s =
     (case intervalRef s of
        None \<Rightarrow> s
      | Some i \<Rightarrow> if i = 0 then s else s\<lparr>intervals := filter (\<lambda>p. fst p \<noteq> i) (intervals s)\<rparr>)"

text \<open>
  One run of the callback of the interval timer \<open>tid\<close>: \<open>k\<close> is the index drawn by the
  tick and \<open>kf\<close> the index that \<open>finalizeGuess\<close> draws when this tick is the twelfth.
\<close>

definition intervalTick :: "nat \<Rightarrow> nat \<Rightarrow> nat \<Rightarrow> app \<Rightarrow> (error \<times> app) + app" where
  "intervalTick tid k kf s =
     (case map_of (intervals s) tid of
        None \<Rightarrow> Inr s
      | Some c \<Rightarrow>
          (case pick k (cl_items c) of
             None \<Rightarrow> Inl (TypeError, s\<lparr>catChoice := None\<rparr>)
           | Some chosen \<Rightarrow>
               let ticks = Suc (cl_ticks c);
                   s1 = s\<lparr>catChoice := Some chosen,
                          intervals := map (\<lambda>p. if fst p = tid then (tid, c\<lparr>cl_ticks := ticks\<rparr>) else p)
                                         (intervals s)\<rparr>
               in if ticks \<ge> 12 then finalizeGuess (cl_items c) (cl_target c) kf (clearIntervalRef s1)
                  else Inr s1))"

definition fireTimeout :: "nat \<Rightarrow> app \<Rightarrow> app" where
  "fireTimeout k s =
     (if k < length (timeouts s) then
        let s1 = s\<lparr>timeouts := take k (timeouts s) @ drop (Suc k) (timeouts s)\<rparr>
        in (case snd (timeouts s ! k) of
              ClearErrorMsg \<Rightarrow> s1\<lparr>errorMsg := []\<rparr>
            | ResetToIdle \<Rightarrow>
                s1\<lparr>gameState := Idle,
                   catEmotion := Neutral,
                   catMessage := MSG_PROMPT,
                   isAiTalking := False\<rparr>)
      else s)"

text \<open>The two buttons shown in the fail state.\<close>

definition retryClick :: "app \<Rightarrow> app" where
  "retryClick s = (case targetItem s of None \<Rightarrow> s | Some t \<Rightarrow> startCatGuessing t s)"

definition chooseAnotherClick :: "app \<Rightarrow> app" where
  "chooseAnotherClick s = s\<lparr>gameState := Idle, catEmotion := Neutral, isAiTalking := False\<rparr>"

subsection \<open>The recognition client\<close>

text \<open>What \<open>response.json()\<close> can yield. An object is its list of members.\<close>

datatype json =
    JNull
  | JBool bool
  | JNum rat
  | JStr string
  | JArr "json list"
  | JObj "(string \<times> json) list"

text \<open>
  Member access on a value that is neither \<open>null\<close> nor \<open>undefined\<close>; \<open>None\<close> is
  \<open>undefined\<close>. Only objects have the members that the source asks for by name.
\<close>

fun getProp :: "string \<Rightarrow> json \<Rightarrow> json option" where
  "getProp k (JObj members) = map_of members k"
| "getProp k _ = None"

fun getIndex0 :: "json \<Rightarrow> json option" where
  "getIndex0 (JArr xs) = (case xs of [] \<Rightarrow> None | x # _ \<Rightarrow> Some x)"
| "getIndex0 (JStr str) = (case str of [] \<Rightarrow> None | c # _ \<Rightarrow> Some (JStr [c]))"
| "getIndex0 (JObj members) = map_of members ''0''"
| "getIndex0 _ = None"

text \<open>The optional chaining \<open>v?.m\<close>: \<open>undefined\<close> when \<open>v\<close> is \<open>null\<close> or \<open>undefined\<close>.\<close>

definition optChain :: "(json \<Rightarrow> json option) \<Rightarrow> json option \<Rightarrow> json option" where
  "optChain f v = (case v of None \<Rightarrow> None | Some JNull \<Rightarrow> None | Some x \<Rightarrow> f x)"

text \<open>
  The white space and line terminators of ECMAScript, each as its UTF-8 bytes:
  U+0009 to U+000D, U+0020, U+00A0, U+1680, U+2000 to U+200A, U+2028, U+2029, U+202F,
  U+205F, U+3000 and U+FEFF.
\<close>

definition WHITESPACE :: "string list" where
  "WHITESPACE =
     [[CHR 0x09], [CHR 0x0A], [CHR 0x0B], [CHR 0x0C], [CHR 0x0D], [CHR 0x20],
      [CHR 0xC2, CHR 0xA0],
      [CHR 0xE1, CHR 0x9A, CHR 0x80],
      [CHR 0xE2, CHR 0x80, CHR 0x80], [CHR 0xE2, CHR 0x80, CHR 0x81],
      [CHR 0xE2, CHR 0x80, CHR 0x82], [CHR 0xE2, CHR 0x80, CHR 0x83],
      [CHR 0xE2, CHR 0x80, CHR 0x84], [CHR 0xE2, CHR 0x80, CHR 0x85],
      [CHR 0xE2, CHR 0x80, CHR 0x86], [CHR 0xE2, CHR 0x80, CHR 0x87],
      [CHR 0xE2, CHR 0x80, CHR 0x88], [CHR 0xE2, CHR 0x80, CHR 0x89],
      [CHR 0xE2, CHR 0x80, CHR 0x8A],
      [CHR 0xE2, CHR 0x80, CHR 0xA8], [CHR 0xE2, CHR 0x80, CHR 0xA9],
      [CHR 0xE2, CHR 0x80, CHR 0xAF],
      [CHR 0xE2, CHR 0x81, CHR 0x9F],
      [CHR 0xE3, CHR 0x80, CHR 0x80],
      [CHR 0xEF, CHR 0xBB, CHR 0xBF]]"

text \<open>The number of bytes of the white space character that \<open>str\<close> starts with, or 0.\<close>

definition wsPrefix :: "string list \<Rightarrow> string \<Rightarrow> nat" where
  "wsPrefix ws str =
     (case find (\<lambda>w. w \<noteq> [] \<and> take (length w) str = w) ws of None \<Rightarrow> 0 | Some w \<Rightarrow> length w)"

function strip :: "string list \<Rightarrow> string \<Rightarrow> string" where
  "strip ws str = (if wsPrefix ws str = 0 then str else strip ws (drop (wsPrefix ws str) str))"
  by pat_completeness auto
termination
proof (relation "measure (\<lambda>(ws, str). length str)")
  show "wf (measure (\<lambda>(ws, str). length str))"
    by simp
next
  fix ws :: "string list" and str :: string
  assume pos: "wsPrefix ws str \<noteq> 0"
  have "str \<noteq> []"
  proof
    assume "str = []"
    then have "find (\<lambda>w. w \<noteq> [] \<and> take (length w) str = w) ws = None"
      by (auto simp: find_None_iff)
    then have "wsPrefix ws str = 0"
      by (simp add: wsPrefix_def)
    with pos show False
      by simp
  qed
  with pos show "((ws, drop (wsPrefix ws str) str), (ws, str)) \<in> measure (\<lambda>(ws, str). length str)"
    by simp
qed

declare strip.simps [simp del]

text \<open>\<open>String.prototype.trim\<close>.\<close>

definition trim :: "string \<Rightarrow> string" where
  "trim str = rev (strip (map rev WHITESPACE) (rev (strip WHITESPACE str)))"

text \<open>
  \<open>data.candidates?.[0]?.content?.parts?.[0]?.text\<close>, for a \<open>data\<close> that is not \<open>null\<close>.
\<close>

definition textOf :: "json \<Rightarrow> json option" where
  "textOf data =
     optChain (getProp ''text'')
       (optChain getIndex0
         (optChain (getProp ''parts'')
           (optChain (getProp ''content'')
             (optChain getIndex0 (getProp ''candidates'' data)))))"

text \<open>
  The whole chain with \<open>?.trim()\<close> at its end: reading a member of \<open>null\<close> throws, and
  so does calling \<open>trim\<close> on a value that is not a string.
\<close>

definition extractText :: "json \<Rightarrow> error + string option" where
  "extractText data =
     (if data = JNull then Inl TypeError
      else
        (case textOf data of
           None \<Rightarrow> Inr None
         | Some JNull \<Rightarrow> Inr None
         | Some (JStr str) \<Rightarrow> Inr (Some (trim str))
         | Some _ \<Rightarrow> Inl TypeError))"

text \<open>\<open>str.split(c)\<close> for a separator of one character.\<close>

fun split :: "char \<Rightarrow> string \<Rightarrow> string list" where
  "split c [] = [[]]"
| "split c (x # xs) =
     (if x = c then [] # split c xs
      else (case split c xs of [] \<Rightarrow> [[x]] | w # ws \<Rightarrow> (x # w) # ws))"

text \<open>
  The request: its address and the two parts of its body. \<open>req_data\<close> is \<open>None\<close> when
  the picture has no comma in it and \<open>split(',')[1]\<close> is \<open>undefined\<close>.
\<close>

record request =
  req_url :: string
  req_text :: string
  req_mimeType :: string
  req_data :: "string option"

text \<open>
  What \<open>fetch\<close> does with a request: it fails, or there is a response with its \<open>ok\<close>
  flag and its body read as JSON (\<open>None\<close> when the body is not JSON).
\<close>

datatype fetch_outcome = FetchFailed | Response bool "json option"

definition API_URL :: string where
  "API_URL = ''https://generativelanguage.googleapis.com/v1beta/models/gemini-2.5-flash-preview-09-2025:generateContent?key=''"

text \<open>The request that \<open>analyzeImage\<close> sends.\<close>

definition buildRequest :: "string \<Rightarrow> string \<Rightarrow> request" where
  "buildRequest base64Image apiKey =
     (let parts = split CHR '','' base64Image
      in \<lparr>req_url = API_URL @ apiKey,
          req_text = PROMPT_TEXT,
          req_mimeType = ''image/jpeg'',
          req_data = (if 1 < length parts then Some (parts ! 1) else None)\<rparr>)"

text \<open>What \<open>analyzeImage\<close> does once \<open>fetch\<close> has settled.\<close>

definition readResponse :: "fetch_outcome \<Rightarrow> error + string" where
  "readResponse outcome =
     (case outcome of
        FetchFailed \<Rightarrow> Inl TypeError
      | Response ok body \<Rightarrow>
          if \<not> ok then Inl API_ERROR
          else (case body of
                  None \<Rightarrow> Inl SyntaxError
                | Some data \<Rightarrow>
                    (case extractText data of
                       Inl e \<Rightarrow> Inl e
                     | Inr None \<Rightarrow> Inl EMPTY_RESPONSE
                     | Inr (Some text) \<Rightarrow>
                         if text = [] then Inl EMPTY_RESPONSE else Inr text)))"

text \<open>The result comes with the requests that were sent.\<close>

definition analyzeImage ::
  "string \<Rightarrow> string \<Rightarrow> (request \<Rightarrow> fetch_outcome) \<Rightarrow> request list \<times> (error + string)" where
  "analyzeImage base64Image apiKey fetch =
     (if apiKey = [] then ([], Inl MISSING_KEY)
      else
        let req = buildRequest base64Image apiKey
        in ([req], readResponse (fetch req)))"

subsection \<open>Uploading a picture\<close>

text \<open>
  \<open>handleFileChange\<close> with the file reader, the compressor and the recognition run to
  their end: \<open>file\<close> is the size of the chosen file, if one was chosen; \<open>compressed\<close>
  is what \<open>compressImage\<close> resolves to, or \<open>None\<close> when the picture never loads and
  the handler stays suspended.
\<close>

definition handleFileChange ::
  "nat option \<Rightarrow> string option \<Rightarrow> (request \<Rightarrow> fetch_outcome) \<Rightarrow> app \<Rightarrow> app" where
  "handleFileChange file compressed fetch s =
     (case file of
        None \<Rightarrow> s
      | Some fileSize \<Rightarrow>
          if fileSize > MAX_UPLOAD_SIZE then s\<lparr>errorMsg := ERR_TOO_LARGE\<rparr>
          else
            let s1 = s\<lparr>errorMsg := [], isAiAnalyzing := True\<rparr>
            in (case compressed of
                  None \<Rightarrow> s1
                | Some img \<Rightarrow>
                    let s2 = s1\<lparr>newItemImage := Some img\<rparr>
                    in (case snd (analyzeImage img (geminiKey s) fetch) of
                          Inr name \<Rightarrow> s2\<lparr>newItemName := name, isAiAnalyzing := False\<rparr>
                        | Inl e \<Rightarrow>
                            (if e = MISSING_KEY \<or> e = API_ERROR
                             then s2\<lparr>errorMsg := ERR_AI_FAILED, isSettingsOpen := True\<rparr>
                             else s2\<lparr>errorMsg := ERR_UNKNOWN\<rparr>)
                            \<lparr>newItemName := NAME_UNKNOWN, isAiAnalyzing := False\<rparr>)))"

subsection \<open>Events\<close>

text \<open>
  What can happen to the component: the clicks, drags and inputs that the rendered
  page offers, and the firing of a timer. An element that is not rendered in a state
  takes no event there. A number with an item event is the position of the item in the
  tray; the numbers with \<open>IntervalFires\<close> are the timer and the two indices drawn in that
  run of its callback.
\<close>

datatype event =
    ItemClick nat
  | DeleteClick nat
  | DragStart nat
  | DragOver nat
  | DragEnd
  | RetryClick
  | ChooseAnotherClick
  | OpenAddModal
  | CloseAddModal
  | TypeName string
  | FileChange "nat option" "string option" "request \<Rightarrow> fetch_outcome"
  | SaveNewItem nat
  | OpenSettings
  | CloseSettings
  | TypeKey string
  | IntervalFires nat nat nat
  | TimeoutFires nat

text \<open>
  The next state, or \<open>None\<close> when the render that follows fails. An error thrown in a
  timer callback ends the callback; the state written before the throw stays. Every
  card is taken to hold the handlers of the latest render. The cards are keyed by the
  ids of their items (\<open>key={item.id}\<close>), and React keeps them up to date as long as the
  keys are distinct; with two cards of one key it does not say which card it keeps or
  updates, and \<open>step\<close> need not be what the component does.
\<close>

fun step :: "app \<Rightarrow> event \<Rightarrow> app option" where
  "step s (ItemClick i) =
     Some (if i < length (items s) then handleItemClick (items s ! i) s else s)"
| "step s (DeleteClick i) =
     Some (if gameState s = Idle \<and> i < length (items s)
           then handleDeleteItem (item_id (items s ! i)) s else s)"
| "step s (DragStart i) =
     Some (if gameState s = Idle \<and> i < length (items s) then handleDragStart i s else s)"
| "step s (DragOver i) =
     (if i < length (items s)
      then (case handleDragOver i s of Inl e \<Rightarrow> None | Inr s' \<Rightarrow> Some s')
      else Some s)"
| "step s DragEnd = Some (handleDragEnd s)"
| "step s RetryClick = Some (if gameState s = Fail then retryClick s else s)"
| "step s ChooseAnotherClick = Some (if gameState s = Fail then chooseAnotherClick s else s)"
| "step s OpenAddModal = Some (s\<lparr>isAddModalOpen := True\<rparr>)"
| "step s CloseAddModal =
     Some (if isAddModalOpen s then s\<lparr>isAddModalOpen := False, errorMsg := []\<rparr> else s)"
| "step s (TypeName str) = Some (if isAddModalOpen s then s\<lparr>newItemName := str\<rparr> else s)"
| "step s (FileChange file compressed fetch) =
     Some (if isAddModalOpen s \<and> \<not> isAiAnalyzing s
           then handleFileChange file compressed fetch s else s)"
| "step s (SaveNewItem now) =
     Some (if isAddModalOpen s \<and> \<not> isAiAnalyzing s then saveNewItem now s else s)"
| "step s OpenSettings = Some (s\<lparr>isSettingsOpen := True\<rparr>)"
| "step s CloseSettings = Some (s\<lparr>isSettingsOpen := False\<rparr>)"
| "step s (TypeKey str) = Some (if isSettingsOpen s then s\<lparr>geminiKey := str\<rparr> else s)"
| "step s (IntervalFires tid k kf) =
     Some (case intervalTick tid k kf s of Inl (e, s') \<Rightarrow> s' | Inr s' \<Rightarrow> s')"
| "step s (TimeoutFires k) = Some (fireTimeout k s)"

fun run :: "app \<Rightarrow> event list \<Rightarrow> app option" where
  "run s [] = Some s"
| "run s (e # es) = (case step s e of None \<Rightarrow> None | Some s' \<Rightarrow> run s' es)"

text \<open>
  The states that an event sequence leads to from a start while no two items have the
  same id, that is, as far as \<open>step\<close> follows the component.
\<close>

inductive reachable :: "app \<Rightarrow> bool" where
  reach_init:
    "distinct (map item_id (loadItems parse savedItems)) \<Longrightarrow>
     reachable (init parse savedItems savedKey)"
| reach_step:
    "reachable s \<Longrightarrow> step s e = Some s' \<Longrightarrow> distinct (map item_id (items s')) \<Longrightarrow>
     reachable s'"

subsection \<open>Sample surroundings\<close>

text \<open>
  A browser with nothing stored, a recognition service that cannot be reached, and one
  that gives the same answer to every request; \<open>firstStart\<close> is the component as it
  comes up in the first of these.
\<close>

definition nothingParses :: "string \<Rightarrow> item list option" where
  "nothingParses str = None"

definition offline :: "request \<Rightarrow> fetch_outcome" where
  "offline req = FetchFailed"

definition respondWith :: "fetch_outcome \<Rightarrow> request \<Rightarrow> fetch_outcome" where
  "respondWith outcome req = outcome"

text \<open>The body of an answer of the service with one candidate and one text part.\<close>

definition answer :: "string \<Rightarrow> json" where
  "answer str =
     JObj [(''candidates'',
            JArr [JObj [(''content'', JObj [(''parts'', JArr [JObj [(''text'', JStr str)]])])]])]"

definition firstStart :: app where
  "firstStart = init nothingParses None None"

text \<open>
  Twelve tick draws. A user who, with no API key set, adds two items, named cup and
  mug, while \<open>Date.now()\<close> reads 5 both times, and the state this leaves. A user who
  opens the add dialog, chooses a picture and types a name; and one who then closes the
  dialog, which keeps the picture and the name, starts a guess on the first item, opens
  the dialog again and stores the item while the cat is guessing.
\<close>

definition zeros :: "nat list" where
  "zeros = [0, 0, 0, 0, 0, 0, 0, 0, 0, 0, 0, 0]"

definition sameClockTwice :: "event list" where
  "sameClockTwice =
     [OpenAddModal, FileChange (Some 10) (Some ''data:image/jpeg;base64,AA'') offline,
      CloseSettings, TypeName ''cup'', SaveNewItem 5,
      OpenAddModal, FileChange (Some 10) (Some ''data:image/jpeg;base64,AB'') offline,
      CloseSettings, TypeName ''mug'', SaveNewItem 5]"

definition twoAdds :: app where
  "twoAdds = the (run firstStart sameClockTwice)"

definition prepareAdd :: "event list" where
  "prepareAdd =
     [OpenAddModal, FileChange (Some 10) (Some ''data:image/jpeg;base64,AA'') offline,
      CloseSettings, TypeName ''cup'']"

definition addWhileGuessing :: "event list" where
  "addWhileGuessing = prepareAdd @ [CloseAddModal, ItemClick 0, OpenAddModal, SaveNewItem 5]"

text \<open>
  A whole guess: the event that starts it, then the runs of the interval timer \<open>tid\<close>
  with the tick draws \<open>ks\<close>, each run given \<open>kf\<close> as the draw of the resolution.
\<close>

definition tickEvents :: "nat \<Rightarrow> nat list \<Rightarrow> nat \<Rightarrow> event list" where
  "tickEvents tid ks kf = map (\<lambda>k. IntervalFires tid k kf) ks"

definition guessEvents :: "event \<Rightarrow> nat \<Rightarrow> nat list \<Rightarrow> nat \<Rightarrow> event list" where
  "guessEvents e tid ks kf = e # tickEvents tid ks kf"

text \<open>The state after a first guess, on the first item, whose final draw is the second.\<close>

definition failedGuess :: app where
  "failedGuess = the (run firstStart (guessEvents (ItemClick 0) 1 zeros 1))"

text \<open>The events that make up drag gestures.\<close>

fun isDragEvent :: "event \<Rightarrow> bool" where
  "isDragEvent (DragStart i) = True"
| "isDragEvent (DragOver i) = True"
| "isDragEvent DragEnd = True"
| "isDragEvent _ = False"

text \<open>A drag that is under way remembers a position that exists.\<close>

definition dragOk :: "app \<Rightarrow> bool" where
  "dragOk s = (\<forall>d. draggedItemIndex s = Some d \<longrightarrow> d < length (items s))"

text \<open>A stored record that parses to the collection \<open>its\<close>; the empty string is no JSON.\<close>

definition parsesTo :: "item list \<Rightarrow> string \<Rightarrow> item list option" where
  "parsesTo its str = (if str = [] then None else Some its)"

text \<open>
  How the timers stand to the game state: an interval timer runs only while the game
  is guessing, and then it is the only one and the one \<open>intervalRef\<close> names; the return
  to idle is pending at most once and only after a success; and outside the idle state
  there is a target.
\<close>

definition timersOk :: "app \<Rightarrow> bool" where
  "timersOk s =
     ((intervals s = [] \<or>
         (gameState s = Guessing \<and>
          (\<exists>i c. intervals s = [(i, c)] \<and> intervalRef s = Some i \<and> i \<noteq> 0)))
      \<and> (gameState s \<noteq> Success \<longrightarrow> ResetToIdle \<notin> snd ` set (timeouts s))
      \<and> length (filter (\<lambda>p. snd p = ResetToIdle) (timeouts s)) \<le> 1
      \<and> (gameState s \<noteq> Idle \<longrightarrow> targetItem s \<noteq> None)
      \<and> nextTimerId s \<noteq> 0)"

section \<open>Properties\<close>

subsection \<open>Unfolding the handlers, and the constants\<close>

lemmas handlers = handleItemClick_def startCatGuessing_def handleDeleteItem_def handleDragStart_def
  handleDragOver_def handleDragEnd_def saveNewItem_def handleFileChange_def analyzeImage_def
  buildRequest_def readResponse_def
  retryClick_def chooseAnotherClick_def fireTimeout_def intervalTick_def finalizeGuess_def
  clearIntervalRef_def pick_def splice_remove_def splice_insert_def

lemmas surroundings = firstStart_def init_def loadItems_def loadKey_def DEFAULT_ITEMS_def
  nothingParses_def offline_def respondWith_def MAX_UPLOAD_SIZE_def

lemma NAME_UNKNOWN_nonempty [simp]: "NAME_UNKNOWN \<noteq> []"
  by (simp add: NAME_UNKNOWN_def)

lemma ERR_KEEP_ONE_nonempty [simp]: "ERR_KEEP_ONE \<noteq> []"
  by (simp add: ERR_KEEP_ONE_def)

lemma toString_5 [simp]: "toString 5 = ''5''"
  by (simp add: toString.simps digit_def)

lemma firstStart_idle: "gameState firstStart = Idle"
  by (simp add: firstStart_def init_def)

lemma firstStart_items: "items firstStart = DEFAULT_ITEMS"
  by (simp add: firstStart_def init_def loadItems_def)

subsection \<open>Deleting\<close>

text \<open>
  C10. A delete that goes through (idle state, at least two items) removes exactly the
  items whose id is the given one and changes nothing else: the new state is the old one
  with \<open>items\<close> filtered, so what remains are items of the old collection, unchanged and in
  their old order, and score, game state and target are as before.
\<close>

theorem handleDeleteItem_frame:
  assumes "gameState s = Idle" and "2 \<le> length (items s)"
  shows "handleDeleteItem itemId s = s\<lparr>items := filter (\<lambda>it. item_id it \<noteq> itemId) (items s)\<rparr>
    \<and> set (items (handleDeleteItem itemId s)) = {it \<in> set (items s). item_id it \<noteq> itemId}
    \<and> subseq (items (handleDeleteItem itemId s)) (items s)
    \<and> score (handleDeleteItem itemId s) = score s
    \<and> gameState (handleDeleteItem itemId s) = gameState s
    \<and> targetItem (handleDeleteItem itemId s) = targetItem s"
  using assms by (auto simp: handleDeleteItem_def)

theorem handleDeleteItem_frame_witness:
  "gameState firstStart = Idle \<and> 2 \<le> length (items firstStart)
   \<and> items (handleDeleteItem ''default_1'' firstStart) = [DEFAULT_ITEMS ! 1]
   \<and> score (handleDeleteItem ''default_1'' firstStart) = 0
   \<and> gameState (handleDeleteItem ''default_1'' firstStart) = Idle
   \<and> targetItem (handleDeleteItem ''default_1'' firstStart) = None"
proof -
  have two: "2 \<le> length (items firstStart)"
    by (simp add: firstStart_items DEFAULT_ITEMS_def)
  have rest: "score firstStart = 0" "targetItem firstStart = None"
    by (simp_all add: firstStart_def init_def)
  show ?thesis
    using handleDeleteItem_frame [OF firstStart_idle two, of "''default_1''"] two rest
    by (simp add: firstStart_idle firstStart_items DEFAULT_ITEMS_def)
qed
subsection \<open>Reordering\<close>

lemma insert_at:
  assumes "j \<le> length r"
  shows "take j (take j r @ x # drop j r) = take j r"
    and "drop (Suc j) (take j r @ x # drop j r) = drop j r"
    and "(take j r @ x # drop j r) ! j = x"
  using assms by (simp_all add: min_absorb2 nth_append)

lemma splice_move:
  assumes "i < length xs" and "j < length xs"
  defines "ys \<equiv> splice_insert j (xs ! i) (take i xs @ drop (Suc i) xs)"
  shows "mset ys = mset xs" and "length ys = length xs" and "ys ! j = xs ! i"
    and "take j ys @ drop (Suc j) ys = take i xs @ drop (Suc i) xs"
proof -
  define rest where "rest = take i xs @ drop (Suc i) xs"
  have "length rest = length xs - 1"
    using assms(1) by (simp add: rest_def)
  then have j: "j \<le> length rest"
    using assms(2) by simp
  have ys: "ys = take j rest @ xs ! i # drop j rest"
    by (simp add: ys_def splice_insert_def rest_def)
  have "mset (take j rest) + mset (drop j rest) = mset rest"
    by (metis append_take_drop_id mset_append)
  then have "mset ys = mset rest + {#xs ! i#}"
    unfolding ys by (simp add: union_commute)
  also have "\<dots> = mset (take i xs @ xs ! i # drop (Suc i) xs)"
    by (simp add: rest_def)
  also have "\<dots> = mset xs"
    using assms(1) by (simp only: id_take_nth_drop [symmetric])
  finally show "mset ys = mset xs" .
  then show "length ys = length xs"
    by (rule mset_eq_length)
  show "ys ! j = xs ! i"
    unfolding ys by (rule insert_at(3) [OF j])
  have "take j ys @ drop (Suc j) ys = take j rest @ drop j rest"
    unfolding ys by (simp only: insert_at(1,2) [OF j])
  then show "take j ys @ drop (Suc j) ys = take i xs @ drop (Suc i) xs"
    by (simp only: append_take_drop_id rest_def)
qed

lemma handleDragOver_move:
  assumes "draggedItemIndex s = Some fromIndex" and "fromIndex < length (items s)"
    and "toIndex < length (items s)"
  shows "\<exists>s'. handleDragOver toIndex s = Inr s'
    \<and> mset (items s') = mset (items s)
    \<and> length (items s') = length (items s)
    \<and> items s' ! toIndex = items s ! fromIndex
    \<and> take toIndex (items s') @ drop (Suc toIndex) (items s') =
        take fromIndex (items s) @ drop (Suc fromIndex) (items s)
    \<and> draggedItemIndex s' = Some toIndex
    \<and> gameState s' = gameState s"
proof (cases "fromIndex = toIndex")
  case True
  then show ?thesis
    using assms by (simp add: handleDragOver_def)
next
  case False
  then show ?thesis
    using assms splice_move [OF assms(2) assms(3)]
    by (simp add: handleDragOver_def splice_remove_def)
qed

lemma step_drag:
  assumes "isDragEvent e" and "dragOk s"
  shows "\<exists>s'. step s e = Some s' \<and> mset (items s') = mset (items s) \<and> dragOk s'"
proof (cases e)
  case (DragStart i)
  then show ?thesis
    using assms by (auto simp: handleDragStart_def dragOk_def)
next
  case (DragOver i)
  show ?thesis
  proof (cases "i < length (items s)")
    case False
    then show ?thesis using DragOver assms by simp
  next
    case inrange: True
    show ?thesis
    proof (cases "draggedItemIndex s")
      case None
      then show ?thesis
        using DragOver assms by (simp add: handleDragOver_def)
    next
      case (Some d)
      then have "d < length (items s)"
        using assms by (simp add: dragOk_def)
      from handleDragOver_move [OF Some this inrange]
      obtain s' where "handleDragOver i s = Inr s'" "mset (items s') = mset (items s)"
        "length (items s') = length (items s)" "draggedItemIndex s' = Some i"
        by blast
      then show ?thesis
        using DragOver inrange by (simp add: dragOk_def)
    qed
  qed
next
  case DragEnd
  then show ?thesis
    using assms by (simp add: handleDragEnd_def dragOk_def)
qed (use assms in simp_all)

lemma run_drag:
  assumes "\<forall>e \<in> set es. isDragEvent e" and "dragOk s"
  shows "\<exists>s'. run s es = Some s' \<and> mset (items s') = mset (items s)"
  using assms
proof (induction es arbitrary: s)
  case Nil
  then show ?case by simp
next
  case (Cons e es)
  from Cons.prems obtain s1 where s1: "step s e = Some s1" "mset (items s1) = mset (items s)" "dragOk s1"
    using step_drag [of e s] by auto
  from Cons.IH [OF _ s1(3)] Cons.prems(1)
  obtain s' where "run s1 es = Some s'" "mset (items s') = mset (items s1)"
    by auto
  then show ?case
    using s1 by simp
qed

text \<open>
  C7. A reorder is a permutation. One step of a drag, from a remembered position to the
  position under the pointer (both in the tray), keeps the multiset of items and of
  their ids, puts the moved item at the destination, and leaves the other items in
  their order: without the moved item the old and the new list are the same. Any
  sequence of drag events keeps the multiset of ids.
\<close>

theorem reorder_permutation:
  "(draggedItemIndex s = Some fromIndex \<and> fromIndex < length (items s) \<and> toIndex < length (items s) \<longrightarrow>
      (\<exists>s'. handleDragOver toIndex s = Inr s'
         \<and> mset (items s') = mset (items s)
         \<and> mset (map item_id (items s')) = mset (map item_id (items s))
         \<and> items s' ! toIndex = items s ! fromIndex
         \<and> take toIndex (items s') @ drop (Suc toIndex) (items s') =
             take fromIndex (items s) @ drop (Suc fromIndex) (items s)
         \<and> draggedItemIndex s' = Some toIndex))
   \<and> ((\<forall>e \<in> set es. isDragEvent e) \<and> (\<forall>d. draggedItemIndex s = Some d \<longrightarrow> d < length (items s)) \<longrightarrow>
      (\<exists>s'. run s es = Some s'
         \<and> mset (items s') = mset (items s)
         \<and> mset (map item_id (items s')) = mset (map item_id (items s))))"
proof (intro conjI impI)
  assume a: "draggedItemIndex s = Some fromIndex \<and> fromIndex < length (items s) \<and> toIndex < length (items s)"
  then obtain s' where s': "handleDragOver toIndex s = Inr s'" "mset (items s') = mset (items s)"
    "items s' ! toIndex = items s ! fromIndex"
    "take toIndex (items s') @ drop (Suc toIndex) (items s') =
       take fromIndex (items s) @ drop (Suc fromIndex) (items s)"
    "draggedItemIndex s' = Some toIndex"
    using handleDragOver_move [of s fromIndex toIndex] by blast
  from s'(2) have "mset (map item_id (items s')) = mset (map item_id (items s))"
    by (metis mset_map)
  with s' show "\<exists>s'. handleDragOver toIndex s = Inr s'
         \<and> mset (items s') = mset (items s)
         \<and> mset (map item_id (items s')) = mset (map item_id (items s))
         \<and> items s' ! toIndex = items s ! fromIndex
         \<and> take toIndex (items s') @ drop (Suc toIndex) (items s') =
             take fromIndex (items s) @ drop (Suc fromIndex) (items s)
         \<and> draggedItemIndex s' = Some toIndex"
    by blast
next
  assume b: "(\<forall>e \<in> set es. isDragEvent e) \<and> (\<forall>d. draggedItemIndex s = Some d \<longrightarrow> d < length (items s))"
  then obtain s' where s': "run s es = Some s'" "mset (items s') = mset (items s)"
    using run_drag [of es s] by (auto simp: dragOk_def)
  from s'(2) have "mset (map item_id (items s')) = mset (map item_id (items s))"
    by (metis mset_map)
  with s' show "\<exists>s'. run s es = Some s'
         \<and> mset (items s') = mset (items s)
         \<and> mset (map item_id (items s')) = mset (map item_id (items s))"
    by blast
qed


theorem reorder_permutation_witness:
  "draggedItemIndex (handleDragStart 0 firstStart) = Some 0
   \<and> 0 < length (items (handleDragStart 0 firstStart))
   \<and> 1 < length (items (handleDragStart 0 firstStart))
   \<and> map_sum id items (handleDragOver 1 (handleDragStart 0 firstStart)) =
       Inr [DEFAULT_ITEMS ! 1, DEFAULT_ITEMS ! 0]
   \<and> list_all isDragEvent [DragStart 0, DragOver 1, DragEnd]
   \<and> draggedItemIndex firstStart = None
   \<and> map_option items (run firstStart [DragStart 0, DragOver 1, DragEnd]) =
       Some [DEFAULT_ITEMS ! 1, DEFAULT_ITEMS ! 0]
   \<and> (\<exists>s'. run firstStart [DragStart 0, DragOver 1, DragEnd] = Some s'
         \<and> mset (map item_id (items s')) = mset (map item_id (items firstStart)))"
  using reorder_permutation [of "handleDragStart 0 firstStart" 0 1 "[]"]
    reorder_permutation [of firstStart 0 0 "[DragStart 0, DragOver 1, DragEnd]"]
  by (simp add: surroundings handlers)

subsection \<open>Adding outside the idle state\<close>

text \<open>
  C5. The code does not gate adding. After a failed guess the game is in the fail
  state, and the add dialog opens, takes a picture and a name and stores a third item.
  And a user who has prepared the dialog stores the item while the cat is guessing.
\<close>

theorem saveNewItem_outside_idle:
  "length (items firstStart) = 2
   \<and> map_option gameState
       (run firstStart (guessEvents (ItemClick 0) 1 zeros 1)) = Some Fail
   \<and> map_option gameState
       (run firstStart (guessEvents (ItemClick 0) 1 zeros 1 @ prepareAdd @ [SaveNewItem 5])) =
       Some Fail
   \<and> map_option (map item_id \<circ> items)
       (run firstStart (guessEvents (ItemClick 0) 1 zeros 1 @ prepareAdd @ [SaveNewItem 5])) =
       Some [''default_1'', ''default_2'', ''5'']
   \<and> map_option gameState (run firstStart addWhileGuessing) = Some Guessing
   \<and> map_option (map item_id \<circ> items) (run firstStart addWhileGuessing) =
       Some [''default_1'', ''default_2'', ''5'']"
  by (simp add: addWhileGuessing_def prepareAdd_def guessEvents_def tickEvents_def zeros_def
      surroundings handlers)

text \<open>
  C3. The resolution does not pick from the repository when an item was added while
  the cat was guessing: the callback of the timer holds the two items of the render
  that started the guess, the draws are made over these two, and the third item of the
  repository is not among them. After eleven ticks the game is still guessing; in the
  twelfth the final draws 0 and 1 pick the first and the second item. The rest is as the
  claim says: success, one more point and the return to idle in 3 seconds on a match,
  fail and no point on a mismatch.
\<close>

theorem resolution_from_snapshot:
  "map_option (length \<circ> items) (run firstStart addWhileGuessing) = Some 3
   \<and> map_option (map (length \<circ> cl_items \<circ> snd) \<circ> intervals)
       (run firstStart addWhileGuessing) = Some [2]
   \<and> map_option gameState
       (run firstStart (addWhileGuessing @ tickEvents 1 (take 11 zeros) 0)) = Some Guessing
   \<and> map_option (map_option item_id \<circ> catChoice)
       (run firstStart (addWhileGuessing @ tickEvents 1 zeros 0)) = Some (Some ''default_1'')
   \<and> map_option gameState
       (run firstStart (addWhileGuessing @ tickEvents 1 zeros 0)) = Some Success
   \<and> map_option score
       (run firstStart (addWhileGuessing @ tickEvents 1 zeros 0)) = Some 1
   \<and> map_option timeouts
       (run firstStart (addWhileGuessing @ tickEvents 1 zeros 0)) = Some [(3000, ResetToIdle)]
   \<and> map_option (map_option item_id \<circ> catChoice)
       (run firstStart (addWhileGuessing @ tickEvents 1 zeros 1)) = Some (Some ''default_2'')
   \<and> map_option gameState
       (run firstStart (addWhileGuessing @ tickEvents 1 zeros 1)) = Some Fail
   \<and> map_option score
       (run firstStart (addWhileGuessing @ tickEvents 1 zeros 1)) = Some 0
   \<and> map_option (length \<circ> items)
       (run firstStart (addWhileGuessing @ tickEvents 1 zeros 1)) = Some 3"
  by (simp add: addWhileGuessing_def prepareAdd_def tickEvents_def zeros_def
      surroundings handlers)

subsection \<open>Loading\<close>

text \<open>
  C9. At load time the collection is the built-in default of two items when the stored
  record is absent, or is there and cannot be parsed (the empty string, which is never
  handed to the parser, is no JSON either); otherwise it is the stored collection.
\<close>

theorem loadItems_fallback:
  "(saved = None \<longrightarrow> loadItems parse saved = DEFAULT_ITEMS)
   \<and> (\<forall>str. saved = Some str \<and> (str = [] \<or> parse str = None) \<longrightarrow>
          loadItems parse saved = DEFAULT_ITEMS)
   \<and> (\<forall>str its. saved = Some str \<and> str \<noteq> [] \<and> parse str = Some its \<longrightarrow>
          loadItems parse saved = its)
   \<and> (parse [] = None \<longrightarrow>
        (\<forall>str its. saved = Some str \<and> parse str = Some its \<longrightarrow> loadItems parse saved = its))
   \<and> items (init parse saved savedKey) = loadItems parse saved
   \<and> length DEFAULT_ITEMS = 2"
  by (auto simp: loadItems_def init_def DEFAULT_ITEMS_def)

theorem loadItems_fallback_witness:
  "loadItems nothingParses None = DEFAULT_ITEMS
   \<and> nothingParses ''{'' = None
   \<and> loadItems nothingParses (Some ''{'') = DEFAULT_ITEMS
   \<and> ''[{}]'' \<noteq> [] \<and> parsesTo [DEFAULT_ITEMS ! 1] [] = None
   \<and> parsesTo [DEFAULT_ITEMS ! 1] ''[{}]'' = Some [DEFAULT_ITEMS ! 1]
   \<and> loadItems (parsesTo [DEFAULT_ITEMS ! 1]) (Some ''[{}]'') = [DEFAULT_ITEMS ! 1]
   \<and> items (init (parsesTo [DEFAULT_ITEMS ! 1]) (Some ''[{}]'') None) = [DEFAULT_ITEMS ! 1]"
  using loadItems_fallback [of None nothingParses None]
    loadItems_fallback [of "Some ''{''" nothingParses None]
    loadItems_fallback [of "Some ''[{}]''" "parsesTo [DEFAULT_ITEMS ! 1]" None]
  by (simp add: nothingParses_def parsesTo_def)

subsection \<open>The timers and the game state\<close>

lemma timersOk_init: "timersOk (init parse savedItems savedKey)"
  by (simp add: timersOk_def init_def)

lemma remove_only:
  assumes "length (filter P xs) \<le> 1" and "k < length xs" and "P (xs ! k)"
  shows "\<forall>x \<in> set (take k xs @ drop (Suc k) xs). \<not> P x"
proof -
  have "xs = take k xs @ xs ! k # drop (Suc k) xs"
    using assms(2) by (rule id_take_nth_drop)
  then have "length (filter P xs) =
      length (filter P (take k xs)) + Suc (length (filter P (drop (Suc k) xs)))"
    using assms(3) by (metis filter.simps(2) filter_append length_Cons length_append)
  with assms(1) have "filter P (take k xs) = []" "filter P (drop (Suc k) xs) = []"
    by simp_all
  then show ?thesis
    by (auto simp: filter_empty_conv)
qed

lemma remove_filter_le:
  "length (filter P (take k xs @ drop (Suc k) xs)) \<le> length (filter P xs)"
proof (cases "k < length xs")
  case True
  then have "xs = take k xs @ xs ! k # drop (Suc k) xs"
    by (rule id_take_nth_drop)
  then have "length (filter P xs) =
      length (filter P (take k xs)) + length (filter P (xs ! k # drop (Suc k) xs))"
    by (metis filter_append length_append)
  then show ?thesis
    by simp
next
  case False
  then show ?thesis by simp
qed

lemma remove_subset: "set (take k xs @ drop (Suc k) xs) \<subseteq> set xs"
  by (auto dest: in_set_takeD in_set_dropD)

lemma no_reset_filter:
  "ResetToIdle \<notin> snd ` set xs \<Longrightarrow> filter (\<lambda>p. snd p = ResetToIdle) xs = []"
  by (force simp: filter_empty_conv)

lemma timersOk_fireTimeout:
  assumes "timersOk s"
  shows "timersOk (fireTimeout k s)"
proof (cases "k < length (timeouts s)")
  case False
  then show ?thesis
    using assms by (simp add: fireTimeout_def)
next
  case k: True
  define rest where "rest = take k (timeouts s) @ drop (Suc k) (timeouts s)"
  have cnt: "length (filter (\<lambda>p. snd p = ResetToIdle) rest) \<le> 1"
    using assms remove_filter_le [of "\<lambda>p. snd p = ResetToIdle" k "timeouts s"]
    by (simp add: timersOk_def rest_def)
  show ?thesis
  proof (cases "snd (timeouts s ! k)")
    case ClearErrorMsg
    have "ResetToIdle \<notin> snd ` set rest" if "gameState s \<noteq> Success"
      using that assms remove_subset [of k "timeouts s"] unfolding rest_def timersOk_def
      by blast
    then show ?thesis
      using assms k ClearErrorMsg cnt
      by (simp add: fireTimeout_def timersOk_def rest_def [symmetric])
  next
    case ResetToIdle
    then have "timeouts s ! k \<in> set (timeouts s)" "snd (timeouts s ! k) = ResetToIdle"
      using k by simp_all
    then have "ResetToIdle \<in> snd ` set (timeouts s)"
      by (metis imageI)
    then have succ: "gameState s = Success"
      using assms by (auto simp: timersOk_def)
    have "\<forall>x \<in> set rest. \<not> snd x = ResetToIdle"
      unfolding rest_def using assms k ResetToIdle
      by (intro remove_only) (simp_all add: timersOk_def)
    then have "ResetToIdle \<notin> snd ` set rest"
      by force
    then show ?thesis
      using assms k ResetToIdle cnt succ
      by (simp add: fireTimeout_def timersOk_def rest_def [symmetric])
  qed
qed

lemma timersOk_startCatGuessing:
  assumes "timersOk s" and "gameState s = Idle \<or> gameState s = Fail" and "targetItem s \<noteq> None"
  shows "timersOk (startCatGuessing t s)"
  using assms by (auto simp: timersOk_def startCatGuessing_def)

lemma timersOk_handleItemClick:
  assumes "timersOk s"
  shows "timersOk (handleItemClick it s)"
proof (cases "gameState s = Idle")
  case True
  have "timersOk (s\<lparr>targetItem := Some it\<rparr>)"
    using assms by (simp add: timersOk_def)
  then show ?thesis
    using True by (simp add: handleItemClick_def timersOk_startCatGuessing)
next
  case False
  then show ?thesis
    using assms by (simp add: handleItemClick_def)
qed

lemma timersOk_retryClick:
  assumes "timersOk s" and "gameState s = Fail"
  shows "timersOk (retryClick s)"
  using assms by (auto simp: retryClick_def timersOk_startCatGuessing split: option.splits)

lemma timersOk_chooseAnotherClick:
  assumes "timersOk s" and "gameState s = Fail"
  shows "timersOk (chooseAnotherClick s)"
  using assms by (simp add: chooseAnotherClick_def timersOk_def)

lemma timersOk_handleDeleteItem:
  assumes "timersOk s"
  shows "timersOk (handleDeleteItem itemId s)"
  using assms by (auto simp: handleDeleteItem_def timersOk_def)

lemma timersOk_handleDragOver:
  assumes "timersOk s" and "handleDragOver i s = Inr s'"
  shows "timersOk s'"
  using assms
  by (auto simp: handleDragOver_def timersOk_def split: option.splits if_splits prod.splits)

lemma timersOk_saveNewItem:
  assumes "timersOk s"
  shows "timersOk (saveNewItem now s)"
  using assms by (simp add: saveNewItem_def timersOk_def split: option.splits)

lemma timersOk_handleFileChange:
  assumes "timersOk s"
  shows "timersOk (handleFileChange file compressed fetch s)"
  using assms
  by (simp add: handleFileChange_def timersOk_def Let_def split: option.splits sum.splits)

lemma timersOk_intervalTick:
  assumes "timersOk s"
  shows "timersOk (case intervalTick tid k kf s of Inl (e, s') \<Rightarrow> s' | Inr s' \<Rightarrow> s')"
proof (cases "intervals s = []")
  case True
  then show ?thesis
    using assms by (simp add: intervalTick_def)
next
  case False
  then obtain i c where ic: "gameState s = Guessing" "intervals s = [(i, c)]"
      "intervalRef s = Some i" "i \<noteq> 0"
    using assms by (auto simp: timersOk_def)
  show ?thesis
  proof (cases "tid = i")
    case False
    then show ?thesis
      using assms ic by (simp add: intervalTick_def)
  next
    case tid: True
    show ?thesis
    proof (cases "pick k (cl_items c)")
      case None
      then show ?thesis
        using assms ic tid by (simp add: intervalTick_def timersOk_def)
    next
      case (Some chosen)
      show ?thesis
      proof (cases "Suc (cl_ticks c) \<ge> 12")
        case False
        then show ?thesis
          using assms ic tid Some by (simp add: intervalTick_def timersOk_def Let_def)
      next
        case last: True
        have nr: "filter (\<lambda>p. snd p = ResetToIdle) (timeouts s) = []"
          using assms ic(1) by (intro no_reset_filter) (simp add: timersOk_def)
        show ?thesis
        proof (cases "pick kf (cl_items c)")
          case None
          then show ?thesis
            using assms ic tid Some last
            by (simp add: intervalTick_def timersOk_def Let_def clearIntervalRef_def
                finalizeGuess_def)
        next
          case final: (Some finalPick)
          then show ?thesis
            using assms ic tid Some last nr
            by (simp add: intervalTick_def timersOk_def Let_def clearIntervalRef_def
                finalizeGuess_def)
        qed
      qed
    qed
  qed
qed

lemma timersOk_step:
  assumes "timersOk s" and "step s e = Some s'"
  shows "timersOk s'"
proof (cases e)
  case (ItemClick i)
  then show ?thesis
    using assms timersOk_handleItemClick [of s] by (auto split: if_splits)
next
  case (DeleteClick i)
  then show ?thesis
    using assms timersOk_handleDeleteItem [of s] by (auto split: if_splits)
next
  case (DragStart i)
  then show ?thesis
    using assms by (auto simp: handleDragStart_def timersOk_def split: if_splits)
next
  case (DragOver i)
  then show ?thesis
    using assms timersOk_handleDragOver [of s i] by (auto split: if_splits sum.splits)
next
  case DragEnd
  then show ?thesis
    using assms by (auto simp: handleDragEnd_def timersOk_def)
next
  case RetryClick
  then show ?thesis
    using assms timersOk_retryClick [of s] by (auto split: if_splits)
next
  case ChooseAnotherClick
  then show ?thesis
    using assms timersOk_chooseAnotherClick [of s] by (auto split: if_splits)
next
  case (FileChange f compressed fetch)
  then show ?thesis
    using assms timersOk_handleFileChange [of s] by (auto split: if_splits)
next
  case (SaveNewItem now)
  then show ?thesis
    using assms timersOk_saveNewItem [of s] by (auto split: if_splits)
next
  case (IntervalFires tid k kf)
  then show ?thesis
    using assms timersOk_intervalTick [of s tid k kf] by auto
next
  case (TimeoutFires k)
  then show ?thesis
    using assms timersOk_fireTimeout [of s k] by auto
next
  case OpenAddModal
  then show ?thesis
    using assms by (auto simp: timersOk_def)
next
  case CloseAddModal
  then show ?thesis
    using assms by (auto simp: timersOk_def split: if_splits)
next
  case (TypeName str)
  then show ?thesis
    using assms by (auto simp: timersOk_def split: if_splits)
next
  case OpenSettings
  then show ?thesis
    using assms by (auto simp: timersOk_def)
next
  case CloseSettings
  then show ?thesis
    using assms by (auto simp: timersOk_def)
next
  case (TypeKey str)
  then show ?thesis
    using assms by (auto simp: timersOk_def split: if_splits)
qed

lemma reachable_timersOk: "reachable s \<Longrightarrow> timersOk s"
  by (induction rule: reachable.induct) (auto intro: timersOk_init timersOk_step)


subsection \<open>Leaving the fail state\<close>

lemma items_intervalTick:
  "items (case intervalTick tid k kf s of Inl (e, s') \<Rightarrow> s' | Inr s' \<Rightarrow> s') = items s"
  by (simp add: intervalTick_def finalizeGuess_def clearIntervalRef_def Let_def
      split: option.splits)

lemma items_fireTimeout: "items (fireTimeout k s) = items s"
  by (simp add: fireTimeout_def Let_def split: timeout_action.splits)

lemma items_handleFileChange: "items (handleFileChange f compressed fetch s) = items s"
  by (simp add: handleFileChange_def Let_def split: option.splits sum.splits)

lemma items_handleItemClick: "items (handleItemClick it s) = items s"
  by (simp add: handleItemClick_def startCatGuessing_def)

lemma items_retryClick: "items (retryClick s) = items s"
  by (simp add: retryClick_def startCatGuessing_def split: option.splits)

lemma handleDragOver_mset:
  assumes "handleDragOver i s = Inr s'" and "i < length (items s)"
  shows "mset (items s') = mset (items s)"
proof (cases "draggedItemIndex s")
  case None
  then show ?thesis
    using assms by (simp add: handleDragOver_def)
next
  case (Some d)
  show ?thesis
  proof (cases "d < length (items s)")
    case True
    from handleDragOver_move [OF Some True assms(2)] assms(1) show ?thesis
      by auto
  next
    case False
    then show ?thesis
      using assms Some by (auto simp: handleDragOver_def splice_remove_def split: if_splits)
  qed
qed

lemma distinct_step:
  assumes "distinct (map item_id (items s))" and "step s e = Some s'"
    and "\<forall>now. e \<noteq> SaveNewItem now"
  shows "distinct (map item_id (items s'))"
proof (cases e)
  case (DeleteClick i)
  then show ?thesis
    using assms by (auto simp: handleDeleteItem_def distinct_map_filter split: if_splits)
next
  case (DragOver i)
  show ?thesis
  proof (cases "i < length (items s)")
    case False
    then show ?thesis
      using assms DragOver by simp
  next
    case True
    then have "handleDragOver i s = Inr s'"
      using assms(2) DragOver by (simp split: sum.splits)
    then have "mset (items s') = mset (items s)"
      using True by (rule handleDragOver_mset)
    then have "mset (map item_id (items s')) = mset (map item_id (items s))"
      by (metis mset_map)
    then have "distinct (map item_id (items s')) = distinct (map item_id (items s))"
      by (rule mset_eq_imp_distinct_iff)
    then show ?thesis
      using assms(1) by simp
  qed
next
  case (SaveNewItem now)
  then show ?thesis
    using assms(3) by simp
next
  case (IntervalFires tid k kf)
  then show ?thesis
    using assms items_intervalTick [of tid k kf s] by auto
qed (use assms in \<open>auto simp: items_fireTimeout items_handleFileChange
      items_handleItemClick items_retryClick handleDragStart_def handleDragEnd_def
      chooseAnotherClick_def split: if_splits\<close>)

lemma reachable_distinct: "reachable s \<Longrightarrow> distinct (map item_id (items s))"
  by (induction rule: reachable.induct) (simp_all add: init_def)

lemma reachable_run:
  assumes "reachable s" and "run s es = Some s'" and "\<forall>now. SaveNewItem now \<notin> set es"
  shows "reachable s'"
  using assms
proof (induction es arbitrary: s)
  case Nil
  then show ?case by simp
next
  case (Cons e es)
  from Cons.prems(2) obtain s1 where s1: "step s e = Some s1" "run s1 es = Some s'"
    by (auto split: option.splits)
  have "distinct (map item_id (items s1))"
    using reachable_distinct [OF Cons.prems(1)] s1(1)
  proof (rule distinct_step)
    show "\<forall>now. e \<noteq> SaveNewItem now"
      using Cons.prems(3) by auto
  qed
  with Cons.prems(1) s1(1) have "reachable s1"
    by (rule reachable.reach_step)
  moreover have "\<forall>now. SaveNewItem now \<notin> set es"
    using Cons.prems(3) by auto
  ultimately show ?case
    using s1(2) by (intro Cons.IH)
qed

lemma reachable_firstStart: "reachable firstStart"
  unfolding firstStart_def
  by (rule reachable.reach_init) (simp add: loadItems_def DEFAULT_ITEMS_def)

lemma failedGuess_run:
  "run firstStart (guessEvents (ItemClick 0) 1 zeros 1) = Some failedGuess"
proof -
  have "\<exists>s'. run firstStart (guessEvents (ItemClick 0) 1 zeros 1) = Some s'"
    by (simp add: zeros_def guessEvents_def tickEvents_def surroundings handlers)
  then show ?thesis
    by (auto simp: failedGuess_def)
qed

lemma failedGuess_reachable: "reachable failedGuess"
  using reachable_firstStart failedGuess_run
proof (rule reachable_run)
  show "\<forall>now. SaveNewItem now \<notin> set (guessEvents (ItemClick 0) 1 zeros 1)"
    by (auto simp: guessEvents_def tickEvents_def)
qed

lemma failedGuess_fail: "gameState failedGuess = Fail"
  by (simp add: failedGuess_def zeros_def guessEvents_def tickEvents_def surroundings handlers)

lemma failedGuess_target: "targetItem failedGuess = Some (DEFAULT_ITEMS ! 0)"
  by (simp add: failedGuess_def zeros_def guessEvents_def tickEvents_def surroundings handlers)

lemma fail_stays:
  assumes "timersOk s" and "gameState s = Fail" and "step s e = Some s'"
    and "e \<noteq> RetryClick" and "e \<noteq> ChooseAnotherClick"
  shows "gameState s' = Fail"
proof (cases e)
  case (ItemClick i)
  then show ?thesis
    using assms by (auto simp: handleItemClick_def)
next
  case (DragOver i)
  then show ?thesis
    using assms
    by (auto simp: handleDragOver_def split: if_splits option.splits prod.splits sum.splits)
next
  case (FileChange f compressed fetch)
  then show ?thesis
    using assms
    by (auto simp: handleFileChange_def Let_def split: if_splits option.splits sum.splits)
next
  case (SaveNewItem now)
  then show ?thesis
    using assms by (auto simp: saveNewItem_def split: if_splits option.splits)
next
  case (IntervalFires tid k kf)
  have "intervals s = []"
    using assms(1,2) by (auto simp: timersOk_def)
  then show ?thesis
    using assms IntervalFires by (auto simp: intervalTick_def)
next
  case (TimeoutFires k)
  show ?thesis
  proof (cases "k < length (timeouts s)")
    case False
    then show ?thesis
      using assms TimeoutFires by (auto simp: fireTimeout_def)
  next
    case True
    then have "timeouts s ! k \<in> set (timeouts s)"
      by simp
    moreover have "ResetToIdle \<notin> snd ` set (timeouts s)"
      using assms(1,2) by (simp add: timersOk_def)
    ultimately have "snd (timeouts s ! k) = ClearErrorMsg"
      by (cases "snd (timeouts s ! k)") force+
    then show ?thesis
      using assms TimeoutFires True by (auto simp: fireTimeout_def)
  qed
qed (use assms in \<open>auto simp: handleDragStart_def handleDragEnd_def split: if_splits\<close>)

text \<open>
  C4 as stated fails in its last part: the button to choose another item returns to
  idle and leaves the target selected. After a failed guess on the first item and a
  click on that button, the state is idle and the target is still the first item.
\<close>

theorem fail_exits_counterexample:
  "map_option gameState (run firstStart (guessEvents (ItemClick 0) 1 zeros 1)) = Some Fail
   \<and> map_option gameState
       (run firstStart (guessEvents (ItemClick 0) 1 zeros 1 @ [ChooseAnotherClick])) = Some Idle
   \<and> map_option targetItem
       (run firstStart (guessEvents (ItemClick 0) 1 zeros 1 @ [ChooseAnotherClick])) =
         Some (Some (DEFAULT_ITEMS ! 0))"
  by (simp add: zeros_def guessEvents_def tickEvents_def surroundings handlers)

text \<open>
  C4, amended. In a fail state that the component reaches while no two items have the
  same id, every event other than the two buttons leaves the game in the fail state:
  no timer is running or pending that would end it. Retry enters the guessing state
  with the same target, on a new interval timer over the current items. The button to
  choose another item enters the idle state and changes neither the target, which
  stays selected, nor the items or the score.
\<close>

theorem fail_exits:
  assumes "reachable s" and "gameState s = Fail"
  shows "(\<forall>e s'. step s e = Some s' \<and> e \<noteq> RetryClick \<and> e \<noteq> ChooseAnotherClick \<longrightarrow>
            gameState s' = Fail)
    \<and> (\<exists>t s'. targetItem s = Some t \<and> step s RetryClick = Some s'
          \<and> gameState s' = Guessing \<and> targetItem s' = Some t
          \<and> intervals s' = [(nextTimerId s, \<lparr>cl_items = items s, cl_target = t, cl_ticks = 0\<rparr>)])
    \<and> (\<exists>s'. step s ChooseAnotherClick = Some s' \<and> gameState s' = Idle
          \<and> targetItem s' = targetItem s \<and> targetItem s' \<noteq> None
          \<and> items s' = items s \<and> score s' = score s)"
proof -
  note ok = reachable_timersOk [OF assms(1)]
  have stay: "\<forall>e s'. step s e = Some s' \<and> e \<noteq> RetryClick \<and> e \<noteq> ChooseAnotherClick \<longrightarrow>
            gameState s' = Fail"
    using fail_stays [OF ok assms(2)] by blast
  obtain t where t: "targetItem s = Some t"
    using ok assms(2) by (auto simp: timersOk_def)
  have none: "intervals s = []"
    using ok assms(2) by (simp add: timersOk_def)
  have retry: "\<exists>t s'. targetItem s = Some t \<and> step s RetryClick = Some s'
          \<and> gameState s' = Guessing \<and> targetItem s' = Some t
          \<and> intervals s' = [(nextTimerId s, \<lparr>cl_items = items s, cl_target = t, cl_ticks = 0\<rparr>)]"
    using t none assms(2) by (simp add: retryClick_def startCatGuessing_def)
  have other: "\<exists>s'. step s ChooseAnotherClick = Some s' \<and> gameState s' = Idle
          \<and> targetItem s' = targetItem s \<and> targetItem s' \<noteq> None
          \<and> items s' = items s \<and> score s' = score s"
    using t assms(2) by (simp add: chooseAnotherClick_def)
  show ?thesis
    using stay retry other by (intro conjI)
qed



theorem fail_exits_witness:
  "reachable failedGuess \<and> gameState failedGuess = Fail
   \<and> IntervalFires 1 0 0 \<noteq> RetryClick \<and> IntervalFires 1 0 0 \<noteq> ChooseAnotherClick
   \<and> map_option gameState (step failedGuess (IntervalFires 1 0 0)) = Some Fail
   \<and> map_option gameState (step failedGuess RetryClick) = Some Guessing
   \<and> map_option targetItem (step failedGuess RetryClick) = Some (Some (DEFAULT_ITEMS ! 0))
   \<and> map_option gameState (step failedGuess ChooseAnotherClick) = Some Idle
   \<and> map_option targetItem (step failedGuess ChooseAnotherClick) = Some (Some (DEFAULT_ITEMS ! 0))"
proof -
  from fail_exits [OF failedGuess_reachable failedGuess_fail]
  have stay: "\<forall>e s'. step failedGuess e = Some s' \<and> e \<noteq> RetryClick \<and> e \<noteq> ChooseAnotherClick \<longrightarrow>
      gameState s' = Fail"
    and retry: "\<exists>t s'. targetItem failedGuess = Some t \<and> step failedGuess RetryClick = Some s'
      \<and> gameState s' = Guessing \<and> targetItem s' = Some t"
    and other: "\<exists>s'. step failedGuess ChooseAnotherClick = Some s' \<and> gameState s' = Idle
      \<and> targetItem s' = targetItem failedGuess"
    by blast+
  obtain s1 where s1: "step failedGuess (IntervalFires 1 0 0) = Some s1"
    by simp
  with stay have "gameState s1 = Fail"
    by blast
  with s1 have a: "map_option gameState (step failedGuess (IntervalFires 1 0 0)) = Some Fail"
    by simp
  from retry have b: "map_option gameState (step failedGuess RetryClick) = Some Guessing"
    "map_option targetItem (step failedGuess RetryClick) = Some (Some (DEFAULT_ITEMS ! 0))"
    by (auto simp: failedGuess_target)
  from other have c: "map_option gameState (step failedGuess ChooseAnotherClick) = Some Idle"
    "map_option targetItem (step failedGuess ChooseAnotherClick) = Some (Some (DEFAULT_ITEMS ! 0))"
    by (auto simp: failedGuess_target)
  show ?thesis
    using failedGuess_reachable failedGuess_fail a b c by simp
qed

subsection \<open>Two items of one id\<close>

lemma twoAdds_run: "run firstStart sameClockTwice = Some twoAdds"
proof -
  have "\<exists>s'. run firstStart sameClockTwice = Some s'"
    by (simp add: sameClockTwice_def surroundings handlers)
  then show ?thesis
    by (auto simp: twoAdds_def)
qed

lemma twoAdds_items:
  "items twoAdds =
     DEFAULT_ITEMS @
     [\<lparr>item_id = ''5'', item_name = ''cup'', item_image = ''data:image/jpeg;base64,AA''\<rparr>,
      \<lparr>item_id = ''5'', item_name = ''mug'', item_image = ''data:image/jpeg;base64,AB''\<rparr>]"
  by (simp add: twoAdds_def sameClockTwice_def firstStart_def init_def loadItems_def loadKey_def
      nothingParses_def offline_def MAX_UPLOAD_SIZE_def handlers)

lemma twoAdds_idle: "gameState twoAdds = Idle"
  by (simp add: twoAdds_def sameClockTwice_def surroundings handlers)

text \<open>
  C1. The code does not keep the collection from becoming empty when two items have
  the same id, and it makes ids from the clock alone: after two adds at the same clock
  reading and the deletion of the two built-in items, the two items left have the id
  5, the guard sees two items, and the delete removes both. No message is set. The
  handler is applied as it stands: of which render a card holds it does not matter, as
  every render with a card of this id has two items or more and the idle state.
\<close>

theorem delete_empties_collection:
  "run firstStart sameClockTwice = Some twoAdds
   \<and> gameState twoAdds = Idle
   \<and> map item_id (items twoAdds) = [''default_1'', ''default_2'', ''5'', ''5'']
   \<and> gameState (handleDeleteItem ''default_2'' (handleDeleteItem ''default_1'' twoAdds)) = Idle
   \<and> map item_name
       (items (handleDeleteItem ''default_2'' (handleDeleteItem ''default_1'' twoAdds))) =
       [''cup'', ''mug'']
   \<and> items (handleDeleteItem ''5''
       (handleDeleteItem ''default_2'' (handleDeleteItem ''default_1'' twoAdds))) = []
   \<and> errorMsg (handleDeleteItem ''5''
       (handleDeleteItem ''default_2'' (handleDeleteItem ''default_1'' twoAdds))) =
       errorMsg twoAdds"
  by (simp add: handleDeleteItem_def twoAdds_run twoAdds_idle twoAdds_items DEFAULT_ITEMS_def)

text \<open>
  C2. The code does not give the target one chance in \<open>N\<close> when another item has the
  id of the target: with the four items after two adds at the same clock reading and
  the cup as target, the resolution compares ids, so the final picks 2 (the cup) and
  3 (the mug) are both a success and the final picks 0 and 1 a failure: two of the four
  equally likely picks win.
\<close>

theorem duplicate_id_wins:
  "map_option (map item_id \<circ> items) (run firstStart sameClockTwice) =
     Some [''default_1'', ''default_2'', ''5'', ''5'']
   \<and> length (items twoAdds) = 4
   \<and> item_name (items twoAdds ! 2) = ''cup'' \<and> item_name (items twoAdds ! 3) = ''mug''
   \<and> map_sum fst gameState
       (finalizeGuess (items twoAdds) (items twoAdds ! 2) 0
          (handleItemClick (items twoAdds ! 2) twoAdds)) = Inr Fail
   \<and> map_sum fst gameState
       (finalizeGuess (items twoAdds) (items twoAdds ! 2) 1
          (handleItemClick (items twoAdds ! 2) twoAdds)) = Inr Fail
   \<and> map_sum fst gameState
       (finalizeGuess (items twoAdds) (items twoAdds ! 2) 2
          (handleItemClick (items twoAdds ! 2) twoAdds)) = Inr Success
   \<and> map_sum fst gameState
       (finalizeGuess (items twoAdds) (items twoAdds ! 2) 3
          (handleItemClick (items twoAdds ! 2) twoAdds)) = Inr Success"
  by (simp add: finalizeGuess_def pick_def twoAdds_run twoAdds_items DEFAULT_ITEMS_def)

subsection \<open>The recognition client\<close>

lemmas trim_eval = trim_def strip.simps wsPrefix_def WHITESPACE_def

lemma wsPrefix_zero_iff:
  "wsPrefix ws str = 0 \<longleftrightarrow> (\<forall>w \<in> set ws. w \<noteq> [] \<longrightarrow> take (length w) str \<noteq> w)"
proof (cases "find (\<lambda>w. w \<noteq> [] \<and> take (length w) str = w) ws")
  case None
  then have "wsPrefix ws str = 0"
    by (simp add: wsPrefix_def)
  moreover have "\<forall>w \<in> set ws. w \<noteq> [] \<longrightarrow> take (length w) str \<noteq> w"
    using None by (auto simp: find_None_iff)
  ultimately show ?thesis
    by simp
next
  case (Some w)
  then have w: "w \<in> set ws" "w \<noteq> []" "take (length w) str = w"
    by (auto simp: find_Some_iff)
  have "wsPrefix ws str \<noteq> 0"
    using Some w(2) by (simp add: wsPrefix_def)
  then show ?thesis
    using w by blast
qed

lemma wsPrefix_pos:
  assumes "wsPrefix ws str \<noteq> 0"
  shows "\<exists>w \<in> set ws. w \<noteq> [] \<and> wsPrefix ws str = length w \<and> str = w @ drop (wsPrefix ws str) str"
proof (cases "find (\<lambda>w. w \<noteq> [] \<and> take (length w) str = w) ws")
  case None
  then show ?thesis
    using assms by (simp add: wsPrefix_def)
next
  case (Some w)
  then have w: "w \<in> set ws" "w \<noteq> []" "take (length w) str = w"
    by (auto simp: find_Some_iff)
  have "str = take (length w) str @ drop (length w) str"
    by simp
  then have "str = w @ drop (length w) str"
    using w(3) by simp
  then show ?thesis
    using Some w by (auto simp: wsPrefix_def)
qed

lemma strip_clean: "wsPrefix ws (strip ws str) = 0"
proof (induction ws str rule: strip.induct)
  case (1 ws str)
  show ?case
  proof (cases "wsPrefix ws str = 0")
    case True
    then show ?thesis
      by (subst strip.simps) simp
  next
    case False
    then show ?thesis
      using "1.IH" by (subst strip.simps) simp
  qed
qed

lemma strip_decomp: "\<exists>wsl. set wsl \<subseteq> set ws \<and> str = concat wsl @ strip ws str"
proof (induction ws str rule: strip.induct)
  case (1 ws str)
  show ?case
  proof (cases "wsPrefix ws str = 0")
    case True
    then have "strip ws str = str"
      by (subst strip.simps) simp
    then have "set [] \<subseteq> set ws \<and> str = concat [] @ strip ws str"
      by simp
    then show ?thesis
      by blast
  next
    case False
    then have eq: "strip ws str = strip ws (drop (wsPrefix ws str) str)"
      by (subst strip.simps) simp
    from wsPrefix_pos [OF False] obtain w where w: "w \<in> set ws"
      "str = w @ drop (wsPrefix ws str) str"
      by blast
    from "1.IH" [OF False] obtain wsl where wsl: "set wsl \<subseteq> set ws"
      "drop (wsPrefix ws str) str = concat wsl @ strip ws (drop (wsPrefix ws str) str)"
      by blast
    have "str = concat (w # wsl) @ strip ws str"
      using w(2) wsl(2) eq by (metis append.assoc concat.simps(2))
    moreover have "set (w # wsl) \<subseteq> set ws"
      using w(1) wsl(1) by simp
    ultimately show ?thesis
      by blast
  qed
qed

lemma wsPrefix_prefix:
  assumes "wsPrefix ws (xs @ ys) = 0"
  shows "wsPrefix ws xs = 0"
  unfolding wsPrefix_zero_iff
proof (intro ballI impI notI)
  fix w
  assume w: "w \<in> set ws" "w \<noteq> []" "take (length w) xs = w"
  have "length (take (length w) xs) = min (length xs) (length w)"
    by (rule length_take)
  then have "length w = min (length xs) (length w)"
    by (simp only: w(3))
  then have "length w \<le> length xs"
    by (simp add: min_def split: if_splits)
  then have "take (length w) (xs @ ys) = w"
    using w(3) by simp
  then show False
    using assms w(1,2) by (auto simp: wsPrefix_zero_iff)
qed

lemma trim_spec:
  shows "\<exists>before after. set before \<subseteq> set WHITESPACE \<and> set after \<subseteq> set WHITESPACE
      \<and> str = concat before @ trim str @ concat after"
  and "wsPrefix WHITESPACE (trim str) = 0"
  and "wsPrefix (map rev WHITESPACE) (rev (trim str)) = 0"
proof -
  define t where "t = strip WHITESPACE str"
  define u where "u = strip (map rev WHITESPACE) (rev t)"
  have trim: "trim str = rev u"
    by (simp add: trim_def t_def u_def)
  from strip_decomp [of WHITESPACE str] obtain before
    where before: "set before \<subseteq> set WHITESPACE" "str = concat before @ t"
    unfolding t_def by blast
  from strip_decomp [of "map rev WHITESPACE" "rev t"] obtain wsl
    where wsl: "set wsl \<subseteq> set (map rev WHITESPACE)" "rev t = concat wsl @ u"
    unfolding u_def by blast
  define after where "after = map rev (rev wsl)"
  have "rev (rev t) = rev u @ rev (concat wsl)"
    by (simp only: wsl(2) rev_append)
  then have t: "t = rev u @ concat after"
    by (simp add: rev_concat after_def)
  have "set after \<subseteq> set WHITESPACE"
    using wsl(1) by (auto simp: after_def)
  then show "\<exists>before after. set before \<subseteq> set WHITESPACE \<and> set after \<subseteq> set WHITESPACE
      \<and> str = concat before @ trim str @ concat after"
    using before t trim by auto
  have "wsPrefix WHITESPACE t = 0"
    unfolding t_def by (rule strip_clean)
  then show "wsPrefix WHITESPACE (trim str) = 0"
    unfolding trim t by (rule wsPrefix_prefix)
  show "wsPrefix (map rev WHITESPACE) (rev (trim str)) = 0"
    unfolding trim u_def by (simp add: strip_clean)
qed

lemma extractText_error: "extractText data = Inl e \<Longrightarrow> e = TypeError"
  unfolding extractText_def
  by (cases "textOf data"; cases "the (textOf data)") (simp_all split: if_splits)

lemma extractText_label:
  "extractText data = Inr (Some label) \<Longrightarrow> \<exists>str. label = trim str"
  unfolding extractText_def
  by (cases "textOf data"; cases "the (textOf data)") (auto split: if_splits)

lemma extractText_shape:
  "extractText
     (JObj [(''candidates'',
        JArr (JObj [(''content'', JObj [(''parts'', JArr (JObj [(''text'', JStr str)] # ps))])] # cs))]) =
   Inr (Some (trim str))"
  by (simp add: extractText_def textOf_def optChain_def)

lemma readResponse_cases:
  obtains
    (failed) "outcome = FetchFailed" and "readResponse outcome = Inl TypeError"
  | (refused) body where "outcome = Response False body" and "readResponse outcome = Inl API_ERROR"
  | (nojson) "outcome = Response True None" and "readResponse outcome = Inl SyntaxError"
  | (throws) data where "outcome = Response True (Some data)"
      and "extractText data = Inl TypeError" and "readResponse outcome = Inl TypeError"
  | (empty) data where "outcome = Response True (Some data)"
      and "extractText data = Inr None \<or> extractText data = Inr (Some [])"
      and "readResponse outcome = Inl EMPTY_RESPONSE"
  | (label) data lbl where "outcome = Response True (Some data)"
      and "extractText data = Inr (Some lbl)" and "lbl \<noteq> []"
      and "readResponse outcome = Inr lbl"
proof (cases outcome)
  case FetchFailed
  then show ?thesis
    using failed by (simp add: readResponse_def)
next
  case (Response ok body)
  show ?thesis
  proof (cases ok)
    case False
    then show ?thesis
      using Response refused by (simp add: readResponse_def)
  next
    case True
    show ?thesis
    proof (cases body)
      case None
      then show ?thesis
        using Response True nojson by (simp add: readResponse_def)
    next
      case (Some data)
      show ?thesis
      proof (cases "extractText data")
        case (Inl e)
        then have "e = TypeError"
          by (rule extractText_error)
        then show ?thesis
          using Response True Some Inl throws by (simp add: readResponse_def)
      next
        case (Inr res)
        show ?thesis
        proof (cases res)
          case None
          then show ?thesis
            using Response True Some Inr empty by (simp add: readResponse_def)
        next
          case lbl: (Some lbl)
          show ?thesis
          proof (cases "lbl = []")
            case True
            then show ?thesis
              using Response \<open>ok\<close> Some Inr lbl empty by (simp add: readResponse_def)
          next
            case False
            then show ?thesis
              using Response \<open>ok\<close> Some Inr lbl label by (simp add: readResponse_def)
          qed
        qed
      qed
    qed
  qed
qed

lemma readResponse_iffs:
  "readResponse outcome \<noteq> Inl MISSING_KEY"
  "readResponse outcome = Inl API_ERROR \<longleftrightarrow> (\<exists>body. outcome = Response False body)"
  "readResponse outcome = Inl EMPTY_RESPONSE \<longleftrightarrow>
     (\<exists>data. outcome = Response True (Some data)
        \<and> (extractText data = Inr None \<or> extractText data = Inr (Some [])))"
  "readResponse outcome = Inr lbl \<longleftrightarrow>
     lbl \<noteq> [] \<and> (\<exists>data. outcome = Response True (Some data) \<and> extractText data = Inr (Some lbl))"
  "readResponse outcome = Inl TypeError \<longleftrightarrow>
     outcome = FetchFailed
     \<or> (\<exists>data. outcome = Response True (Some data) \<and> extractText data = Inl TypeError)"
  "readResponse outcome = Inl SyntaxError \<longleftrightarrow> outcome = Response True None"
  by (cases outcome rule: readResponse_cases; auto)+

text \<open>
  C6 as stated fails where it says that, given a key, the three outcomes are all there
  is: a success response whose body is not JSON has no usable text and fails with a
  syntax error, not with \<open>EMPTY_RESPONSE\<close>; a body that is \<open>null\<close> fails with a type
  error; and when the request itself fails there is no response and no label.
\<close>

theorem analyzeImage_outcomes_counterexample:
  "snd (analyzeImage ''data:image/jpeg;base64,AA'' ''k'' (respondWith (Response True None))) =
     Inl SyntaxError
   \<and> snd (analyzeImage ''data:image/jpeg;base64,AA'' ''k'' (respondWith (Response True (Some JNull)))) =
     Inl TypeError
   \<and> snd (analyzeImage ''data:image/jpeg;base64,AA'' ''k'' offline) = Inl TypeError"
  by (simp add: analyzeImage_def readResponse_def extractText_def respondWith_def offline_def)


text \<open>
  C6, amended. The client fails with \<open>MISSING_KEY\<close> exactly when the key is empty, and
  then sends nothing. With a key it sends one request, and it fails with \<open>API_ERROR\<close>
  exactly when the response is not a success; with \<open>EMPTY_RESPONSE\<close> exactly when a
  success response has a JSON body in which the text is missing or is empty once
  trimmed; and it returns the label exactly when the text is a string that is not
  empty once trimmed. In the remaining cases it fails with another error: a type error
  when the request fails, the body is \<open>null\<close> or the text is not a string, a syntax
  error when the body is not JSON. A returned label is the text without the white
  space around it: the text is white space, the label, white space, and the label
  neither starts nor ends with a white space character.
\<close>

theorem analyzeImage_outcomes:
  "(apiKey = [] \<longrightarrow> analyzeImage img apiKey fetch = ([], Inl MISSING_KEY))
   \<and> (snd (analyzeImage img apiKey fetch) = Inl MISSING_KEY \<longleftrightarrow> apiKey = [])
   \<and> (apiKey \<noteq> [] \<longrightarrow>
        fst (analyzeImage img apiKey fetch) = [buildRequest img apiKey]
        \<and> (snd (analyzeImage img apiKey fetch) = Inl API_ERROR \<longleftrightarrow>
             (\<exists>body. fetch (buildRequest img apiKey) = Response False body))
        \<and> (snd (analyzeImage img apiKey fetch) = Inl EMPTY_RESPONSE \<longleftrightarrow>
             (\<exists>data. fetch (buildRequest img apiKey) = Response True (Some data)
                \<and> (extractText data = Inr None \<or> extractText data = Inr (Some []))))
        \<and> (\<forall>lbl. snd (analyzeImage img apiKey fetch) = Inr lbl \<longleftrightarrow>
             lbl \<noteq> [] \<and> (\<exists>data. fetch (buildRequest img apiKey) = Response True (Some data)
                \<and> extractText data = Inr (Some lbl)))
        \<and> (snd (analyzeImage img apiKey fetch) = Inl TypeError \<longleftrightarrow>
             fetch (buildRequest img apiKey) = FetchFailed
             \<or> (\<exists>data. fetch (buildRequest img apiKey) = Response True (Some data)
                  \<and> extractText data = Inl TypeError))
        \<and> (snd (analyzeImage img apiKey fetch) = Inl SyntaxError \<longleftrightarrow>
             fetch (buildRequest img apiKey) = Response True None))
   \<and> (\<forall>data lbl. extractText data = Inr (Some lbl) \<longrightarrow>
        (\<exists>str before after. lbl = trim str
           \<and> set before \<subseteq> set WHITESPACE \<and> set after \<subseteq> set WHITESPACE
           \<and> str = concat before @ lbl @ concat after
           \<and> wsPrefix WHITESPACE lbl = 0 \<and> wsPrefix (map rev WHITESPACE) (rev lbl) = 0))
   \<and> extractText
       (JObj [(''candidates'',
          JArr (JObj [(''content'', JObj [(''parts'', JArr (JObj [(''text'', JStr str)] # ps))])] # cs))]) =
       Inr (Some (trim str))"
proof (intro conjI impI allI)
  assume "apiKey = []"
  then show "analyzeImage img apiKey fetch = ([], Inl MISSING_KEY)"
    by (simp add: analyzeImage_def)
next
  show "snd (analyzeImage img apiKey fetch) = Inl MISSING_KEY \<longleftrightarrow> apiKey = []"
    using readResponse_iffs(1) [of "fetch (buildRequest img apiKey)"]
    by (simp add: analyzeImage_def Let_def)
next
  assume key: "apiKey \<noteq> []"
  then have res: "snd (analyzeImage img apiKey fetch) = readResponse (fetch (buildRequest img apiKey))"
    by (simp add: analyzeImage_def Let_def)
  show "fst (analyzeImage img apiKey fetch) = [buildRequest img apiKey]"
    using key by (simp add: analyzeImage_def Let_def)
  show "snd (analyzeImage img apiKey fetch) = Inl API_ERROR \<longleftrightarrow>
      (\<exists>body. fetch (buildRequest img apiKey) = Response False body)"
    unfolding res by (rule readResponse_iffs)
  show "snd (analyzeImage img apiKey fetch) = Inl EMPTY_RESPONSE \<longleftrightarrow>
      (\<exists>data. fetch (buildRequest img apiKey) = Response True (Some data)
         \<and> (extractText data = Inr None \<or> extractText data = Inr (Some [])))"
    unfolding res by (rule readResponse_iffs)
  show "snd (analyzeImage img apiKey fetch) = Inr lbl \<longleftrightarrow>
      lbl \<noteq> [] \<and> (\<exists>data. fetch (buildRequest img apiKey) = Response True (Some data)
         \<and> extractText data = Inr (Some lbl))" for lbl
    unfolding res by (rule readResponse_iffs)
  show "snd (analyzeImage img apiKey fetch) = Inl TypeError \<longleftrightarrow>
      fetch (buildRequest img apiKey) = FetchFailed
      \<or> (\<exists>data. fetch (buildRequest img apiKey) = Response True (Some data)
           \<and> extractText data = Inl TypeError)"
    unfolding res by (rule readResponse_iffs)
  show "snd (analyzeImage img apiKey fetch) = Inl SyntaxError \<longleftrightarrow>
      fetch (buildRequest img apiKey) = Response True None"
    unfolding res by (rule readResponse_iffs)
next
  fix data lbl
  assume "extractText data = Inr (Some lbl)"
  then obtain str where str: "lbl = trim str"
    by (rule extractText_label [THEN exE])
  from trim_spec(1) [of str] obtain before after
    where parts: "set before \<subseteq> set WHITESPACE" "set after \<subseteq> set WHITESPACE"
      "str = concat before @ trim str @ concat after"
    by (elim exE conjE)
  have "lbl = trim str
      \<and> set before \<subseteq> set WHITESPACE \<and> set after \<subseteq> set WHITESPACE
      \<and> str = concat before @ lbl @ concat after
      \<and> wsPrefix WHITESPACE lbl = 0 \<and> wsPrefix (map rev WHITESPACE) (rev lbl) = 0"
    unfolding str using parts trim_spec(2,3) [of str] by (intro conjI refl)
  then show "\<exists>str before after. lbl = trim str
           \<and> set before \<subseteq> set WHITESPACE \<and> set after \<subseteq> set WHITESPACE
           \<and> str = concat before @ lbl @ concat after
           \<and> wsPrefix WHITESPACE lbl = 0 \<and> wsPrefix (map rev WHITESPACE) (rev lbl) = 0"
    by (intro exI)
next
  show "extractText
       (JObj [(''candidates'',
          JArr (JObj [(''content'', JObj [(''parts'', JArr (JObj [(''text'', JStr str)] # ps))])] # cs))]) =
       Inr (Some (trim str))"
    by (rule extractText_shape)
qed



lemma trim_cup: "trim ('' cup'' @ [CHR 0x0A]) = ''cup''"
  by (simp add: trim_eval)

lemma trim_blank: "trim ''  '' = []"
  by (simp add: trim_eval)

theorem analyzeImage_outcomes_witness:
  "analyzeImage ''data:image/jpeg;base64,AA'' [] offline = ([], Inl MISSING_KEY)
   \<and> ''k'' \<noteq> []
   \<and> fst (analyzeImage ''data:image/jpeg;base64,AA'' ''k''
        (respondWith (Response True (Some (answer ('' cup'' @ [CHR 0x0A])))))) =
       [\<lparr>req_url = API_URL @ ''k'', req_text = PROMPT_TEXT, req_mimeType = ''image/jpeg'',
         req_data = Some ''AA''\<rparr>]
   \<and> extractText (answer ('' cup'' @ [CHR 0x0A])) = Inr (Some ''cup'')
   \<and> snd (analyzeImage ''data:image/jpeg;base64,AA'' ''k''
        (respondWith (Response True (Some (answer ('' cup'' @ [CHR 0x0A])))))) = Inr ''cup''
   \<and> extractText (answer ''  '') = Inr (Some [])
   \<and> snd (analyzeImage ''data:image/jpeg;base64,AA'' ''k''
        (respondWith (Response True (Some (answer ''  ''))))) = Inl EMPTY_RESPONSE
   \<and> snd (analyzeImage ''data:image/jpeg;base64,AA'' ''k''
        (respondWith (Response False None))) = Inl API_ERROR"
proof -
  have key: "''k'' \<noteq> []"
    by simp
  have cup: "extractText (answer ('' cup'' @ [CHR 0x0A])) = Inr (Some ''cup'')"
    unfolding answer_def extractText_shape trim_cup by (rule refl)
  have blank: "extractText (answer ''  '') = Inr (Some [])"
    unfolding answer_def extractText_shape trim_blank by (rule refl)
  have req: "buildRequest ''data:image/jpeg;base64,AA'' ''k'' =
      \<lparr>req_url = API_URL @ ''k'', req_text = PROMPT_TEXT, req_mimeType = ''image/jpeg'',
       req_data = Some ''AA''\<rparr>"
    by (simp add: buildRequest_def)
  note w1 = analyzeImage_outcomes [of "[]" "''data:image/jpeg;base64,AA''" offline]
  note w2 = analyzeImage_outcomes [of "''k''" "''data:image/jpeg;base64,AA''"
      "respondWith (Response True (Some (answer ('' cup'' @ [CHR 0x0A]))))"]
  note w3 = analyzeImage_outcomes [of "''k''" "''data:image/jpeg;base64,AA''"
      "respondWith (Response True (Some (answer ''  '')))"]
  note w4 = analyzeImage_outcomes [of "''k''" "''data:image/jpeg;base64,AA''"
      "respondWith (Response False None)"]
  have a: "analyzeImage ''data:image/jpeg;base64,AA'' [] offline = ([], Inl MISSING_KEY)"
    using w1 by blast
  have b: "fst (analyzeImage ''data:image/jpeg;base64,AA'' ''k''
        (respondWith (Response True (Some (answer ('' cup'' @ [CHR 0x0A])))))) =
       [\<lparr>req_url = API_URL @ ''k'', req_text = PROMPT_TEXT, req_mimeType = ''image/jpeg'',
         req_data = Some ''AA''\<rparr>]"
    using w2 key unfolding req by blast
  have c: "snd (analyzeImage ''data:image/jpeg;base64,AA'' ''k''
        (respondWith (Response True (Some (answer ('' cup'' @ [CHR 0x0A])))))) = Inr ''cup''"
    using w2 key cup by (auto simp: respondWith_def)
  have d: "snd (analyzeImage ''data:image/jpeg;base64,AA'' ''k''
        (respondWith (Response True (Some (answer ''  ''))))) = Inl EMPTY_RESPONSE"
    using w3 key blank by (auto simp: respondWith_def)
  have e: "snd (analyzeImage ''data:image/jpeg;base64,AA'' ''k''
        (respondWith (Response False None))) = Inl API_ERROR"
    using w4 key by (auto simp: respondWith_def)
  show ?thesis
    by (intro conjI a key b cup c blank d e)
qed



end
